theory Spec2Isabelle
  imports Main "HOL-Library.AList"
begin

section \<open>Data model (types.ts)\<close>

text \<open>
  The interfaces of \<^verbatim>\<open>types.ts\<close> become records and its enums datatypes. Values the
  source types as \<^verbatim>\<open>unknown\<close> (argument maps, metadata, executor outputs) are values of
  a type parameter \<open>'x\<close>. Optional properties are \<open>option\<close>s. A field whose source name
  is used by two interfaces, or clashes with a constant of HOL, carries a prefix.

  A string is a list of code units; a \<open>char\<close> with code \<open>n\<close> stands for the UTF-16 code
  unit \<open>n\<close>, so the strings of the model are the JavaScript strings over the code units
  below 256. Times and durations are whole milliseconds.
\<close>

datatype OperationSeverity = SAFE | LOW | MEDIUM | HIGH | CRITICAL

datatype CallerType = human | agent | service

record 'x CallerIdentity =
  caller_id :: string
  caller_name :: string
  caller_type :: CallerType
  caller_metadata :: "'x option"

record 'x ToolCallContext =
  callId :: string
  tool :: string
  action :: string
  severity :: OperationSeverity
  caller :: "'x CallerIdentity"
  args :: "'x option"
  timestamp :: int
  metadata :: "'x option"

datatype PolicyEffect = ALLOW | DENY | REVIEW

record PolicyDecision =
  effect :: PolicyEffect
  reason :: string
  rule :: "string option"
  approvalToken :: "string option"

text \<open>
  A value thrown: an \<^verbatim>\<open>Error\<close> object with its message, or another value with its
  conversion to a string.
\<close>

datatype thrown = Error string | NonError string

text \<open>
  The custom matcher of a rule is a function of the policy's author: a call of it
  returns a boolean (\<open>Inr\<close>) or throws (\<open>Inl\<close>).
\<close>

record 'x RuleMatch =
  match_tool :: "string option"
  match_action :: "string option"
  minSeverity :: "OperationSeverity option"
  callerType :: "CallerType option"
  custom :: "('x ToolCallContext \<Rightarrow> thrown + bool) option"

record 'x PolicyRule =
  rule_id :: string
  description :: "string option"
  match :: "'x RuleMatch"
  rule_effect :: PolicyEffect
  rule_reason :: "string option"

record 'x PolicyConfig =
  rules :: "'x PolicyRule list"
  defaultEffect :: PolicyEffect
  defaultReason :: "string option"

section \<open>The regular expressions of matchesPattern\<close>

text \<open>
  \<^verbatim>\<open>matchesPattern\<close> builds the source text of a regular expression and hands it to the
  \<^verbatim>\<open>RegExp\<close> constructor with the flag \<^verbatim>\<open>i\<close>. The part of the ECMAScript pattern language
  it can reach is modelled: pattern characters, identity escapes of syntax characters,
  the dot, the assertions \<^verbatim>\<open>^\<close> and \<^verbatim>\<open>$\<close>, and the quantifier \<^verbatim>\<open>*\<close> on a one-character atom.
  Any other construct makes the parser return \<open>None\<close>.
\<close>

definition backslash :: char where
  "backslash = CHR 0x5C"

text \<open>The fourteen syntax characters: the class \<^verbatim>\<open>[.*+?^${}()|[\]\\]\<close> of the source.\<close>

definition syntax_characters :: string where
  "syntax_characters = ''.*+?^${}()|[]'' @ [backslash]"

text \<open>
  The dot matches every code unit but a line terminator: the regular expression has no
  \<^verbatim>\<open>s\<close> flag. Line feed and carriage return are the line terminators below 256.
\<close>

definition line_terminator :: "char \<Rightarrow> bool" where
  "line_terminator c = (c = CHR 0x0A \<or> c = CHR 0x0D)"

text \<open>
  Under the flag \<^verbatim>\<open>i\<close> two code units match when their canonical forms are equal; the
  canonical form is the upper-case mapping when that is one code unit. Below 256 the
  letters a to z, and the letters 0xE0 to 0xFE but the division sign 0xF7, map to the
  code unit 32 lower. The micro sign and y with diaeresis map to code units above 255
  that no code unit below 256 maps to, the sharp s maps to two code units: each of them
  is its own canonical form here.
\<close>

definition canonicalize :: "char \<Rightarrow> char" where
  "canonicalize c =
     (let n = (of_char c :: nat) in
      if (97 \<le> n \<and> n \<le> 122) \<or> (224 \<le> n \<and> n \<le> 254 \<and> n \<noteq> 247)
      then char_of (n - 32) else c)"

datatype rx_token = TChar char | TDot | TCaret | TDollar | TStar

fun rx_lex :: "string \<Rightarrow> rx_token list option" where
  "rx_lex [] = Some []"
| "rx_lex (c # cs) =
     (if c = backslash then
        (case cs of
           [] \<Rightarrow> None
         | d # ds \<Rightarrow>
             if d \<in> set syntax_characters then map_option (Cons (TChar d)) (rx_lex ds)
             else None)
      else if c = CHR ''.'' then map_option (Cons TDot) (rx_lex cs)
      else if c = CHR ''^'' then map_option (Cons TCaret) (rx_lex cs)
      else if c = CHR ''$'' then map_option (Cons TDollar) (rx_lex cs)
      else if c = CHR ''*'' then map_option (Cons TStar) (rx_lex cs)
      else if c \<in> set syntax_characters then None
      else map_option (Cons (TChar c)) (rx_lex cs))"

datatype rx_atom = AChar char | ADot

datatype rx_term = Assert_Start | Assert_End | Atom rx_atom | Star rx_atom

fun rx_terms :: "rx_token list \<Rightarrow> rx_term list option" where
  "rx_terms [] = Some []"
| "rx_terms (TChar c # TStar # ts) = map_option (Cons (Star (AChar c))) (rx_terms ts)"
| "rx_terms (TDot # TStar # ts) = map_option (Cons (Star ADot)) (rx_terms ts)"
| "rx_terms (TChar c # ts) = map_option (Cons (Atom (AChar c))) (rx_terms ts)"
| "rx_terms (TDot # ts) = map_option (Cons (Atom ADot)) (rx_terms ts)"
| "rx_terms (TCaret # ts) = map_option (Cons Assert_Start) (rx_terms ts)"
| "rx_terms (TDollar # ts) = map_option (Cons Assert_End) (rx_terms ts)"
| "rx_terms (TStar # ts) = None"

text \<open>\<^verbatim>\<open>new RegExp(source, 'i')\<close>; \<open>None\<close> is the SyntaxError (or a construct outside the model).\<close>

definition RegExp :: "string \<Rightarrow> rx_term list option" where
  "RegExp source = (case rx_lex source of None \<Rightarrow> None | Some ts \<Rightarrow> rx_terms ts)"

fun atom_matches :: "rx_atom \<Rightarrow> char \<Rightarrow> bool" where
  "atom_matches (AChar c) x = (canonicalize x = canonicalize c)"
| "atom_matches ADot x = (\<not> line_terminator x)"

text \<open>
  \<open>rx_match ts at_start s\<close>: the terms match a prefix of the rest \<open>s\<close> of the input;
  \<open>at_start\<close> says that \<open>s\<close> is the whole input. A backtracking matcher finds a match
  exactly when one exists, so the star tries both ways.
\<close>

fun rx_match :: "rx_term list \<Rightarrow> bool \<Rightarrow> string \<Rightarrow> bool" where
  "rx_match [] at_start s = True"
| "rx_match (Assert_Start # ts) at_start s = (at_start \<and> rx_match ts at_start s)"
| "rx_match (Assert_End # ts) at_start s = (s = [] \<and> rx_match ts at_start s)"
| "rx_match (Atom a # ts) at_start s =
     (case s of [] \<Rightarrow> False | x # xs \<Rightarrow> atom_matches a x \<and> rx_match ts False xs)"
| "rx_match (Star a # ts) at_start s =
     (rx_match ts at_start s \<or>
      (case s of [] \<Rightarrow> False
       | x # xs \<Rightarrow> atom_matches a x \<and> rx_match (Star a # ts) False xs))"

text \<open>\<^verbatim>\<open>regex.test(value)\<close>: a match starting at some index of the value.\<close>

fun rx_search :: "rx_term list \<Rightarrow> bool \<Rightarrow> string \<Rightarrow> bool" where
  "rx_search ts at_start [] = rx_match ts at_start []"
| "rx_search ts at_start (x # xs) = (rx_match ts at_start (x # xs) \<or> rx_search ts False xs)"

definition RegExp_test :: "rx_term list \<Rightarrow> string \<Rightarrow> bool" where
  "RegExp_test ts v = rx_search ts True v"

section \<open>Policy engine (policy-engine.ts)\<close>

fun SEVERITY_ORDER :: "OperationSeverity \<Rightarrow> nat" where
  "SEVERITY_ORDER SAFE = 0"
| "SEVERITY_ORDER LOW = 1"
| "SEVERITY_ORDER MEDIUM = 2"
| "SEVERITY_ORDER HIGH = 3"
| "SEVERITY_ORDER CRITICAL = 4"

text \<open>\<^verbatim>\<open>pattern.split('*')\<close>: never the empty list.\<close>

fun split_star :: "string \<Rightarrow> string list" where
  "split_star [] = [[]]"
| "split_star (c # cs) =
     (if c = CHR ''*'' then [] # split_star cs
      else (case split_star cs of [] \<Rightarrow> [[c]] | p # ps \<Rightarrow> (c # p) # ps))"

text \<open>\<^verbatim>\<open>part.replace(/[.*+?^${}()|[\]\\]/g, '\\$&')\<close>\<close>

definition escape_part :: "string \<Rightarrow> string" where
  "escape_part part =
     concat (map (\<lambda>c. if c \<in> set syntax_characters then [backslash, c] else [c]) part)"

fun join :: "string \<Rightarrow> string list \<Rightarrow> string" where
  "join sep [] = []"
| "join sep [p] = p"
| "join sep (p # q # ps) = p @ sep @ join sep (q # ps)"

definition regexPattern :: "string \<Rightarrow> string" where
  "regexPattern pattern = join ''.*'' (map escape_part (split_star pattern))"

text \<open>
  A source text that does not compile would make the constructor throw; lemma
  \<open>regexPattern_compiles\<close> below shows that \<^verbatim>\<open>matchesPattern\<close> never builds one.
\<close>

definition matchesPattern :: "string \<Rightarrow> string \<Rightarrow> bool" where
  "matchesPattern v pattern =
     (case RegExp (''^'' @ regexPattern pattern @ ''$'') of
        None \<Rightarrow> False
      | Some regex \<Rightarrow> RegExp_test regex v)"

text \<open>
  The truth value JavaScript gives an optional string: \<^verbatim>\<open>undefined\<close> and the empty
  string are falsy.
\<close>

fun truthy :: "string option \<Rightarrow> bool" where
  "truthy None = False"
| "truthy (Some s) = (s \<noteq> [])"

text \<open>\<^verbatim>\<open>a || b\<close> on an optional string \<open>a\<close>.\<close>

fun or_else :: "string option \<Rightarrow> string \<Rightarrow> string" where
  "or_else None d = d"
| "or_else (Some s) d = (if s = [] then d else s)"

text \<open>
  \<open>matchesRule\<close> calls the custom matcher last, and only when the other fields have
  not already returned false; what the matcher throws leaves \<open>matchesRule\<close>, which
  has no handler.
\<close>

definition matchesRule :: "'x ToolCallContext \<Rightarrow> 'x PolicyRule \<Rightarrow> thrown + bool" where
  "matchesRule ctx r =
     (if (case match_tool (match r) of
            None \<Rightarrow> False
          | Some pat \<Rightarrow> truthy (Some pat) \<and> \<not> matchesPattern (tool ctx) pat) then Inr False
      else if (case match_action (match r) of
                 None \<Rightarrow> False
               | Some pat \<Rightarrow> truthy (Some pat) \<and> \<not> matchesPattern (action ctx) pat)
      then Inr False
      else if (case minSeverity (match r) of
                 None \<Rightarrow> False
               | Some m \<Rightarrow> SEVERITY_ORDER (severity ctx) < SEVERITY_ORDER m) then Inr False
      else if (case callerType (match r) of
                 None \<Rightarrow> False
               | Some t \<Rightarrow> caller_type (caller ctx) \<noteq> t) then Inr False
      else
        (case custom (match r) of
           None \<Rightarrow> Inr True
         | Some f \<Rightarrow>
             (case f ctx of
                Inl e \<Rightarrow> Inl e
              | Inr b \<Rightarrow> if \<not> b then Inr False else Inr True)))"

definition getDefaultReason :: "PolicyEffect \<Rightarrow> 'x PolicyRule option \<Rightarrow> string" where
  "getDefaultReason e r =
     (let ruleDesc = (case r of None \<Rightarrow> [] | Some r' \<Rightarrow> '' (rule: '' @ rule_id r' @ '')'') in
      case e of
        ALLOW \<Rightarrow> ''Operation allowed by policy'' @ ruleDesc
      | DENY \<Rightarrow> ''Operation denied by policy'' @ ruleDesc
      | REVIEW \<Rightarrow> ''Operation requires human approval'' @ ruleDesc)"

text \<open>
  The loop of \<^verbatim>\<open>evaluatePolicy\<close> over the rules; \<open>Inr None\<close> when it ends without a
  return, \<open>Inl\<close> when a custom matcher throws. \<open>uuid\<close> is what \<^verbatim>\<open>uuidv4()\<close> returns when
  it is called.
\<close>

fun evaluate_rules ::
  "'x PolicyRule list \<Rightarrow> 'x ToolCallContext \<Rightarrow> string \<Rightarrow> thrown + PolicyDecision option" where
  "evaluate_rules [] ctx uuid = Inr None"
| "evaluate_rules (r # rs) ctx uuid =
     (case matchesRule ctx r of
        Inl e \<Rightarrow> Inl e
      | Inr matches \<Rightarrow>
          if matches then
            (let d = \<lparr> effect = rule_effect r,
                       reason = or_else (rule_reason r)
                                  (getDefaultReason (rule_effect r) (Some r)),
                       rule = Some (rule_id r),
                       approvalToken = None \<rparr>
             in Inr (Some (if rule_effect r = REVIEW then d\<lparr> approvalToken := Some uuid \<rparr>
                           else d)))
          else evaluate_rules rs ctx uuid)"

definition evaluatePolicy ::
  "'x PolicyConfig \<Rightarrow> 'x ToolCallContext \<Rightarrow> string \<Rightarrow> thrown + PolicyDecision" where
  "evaluatePolicy config ctx uuid =
     (case evaluate_rules (rules config) ctx uuid of
        Inl e \<Rightarrow> Inl e
      | Inr (Some d) \<Rightarrow> Inr d
      | Inr None \<Rightarrow>
          (let d = \<lparr> effect = defaultEffect config,
                     reason = or_else (defaultReason config)
                                (getDefaultReason (defaultEffect config)
                                   (None :: 'x PolicyRule option)),
                     rule = None,
                     approvalToken = None \<rparr>
           in Inr (if defaultEffect config = REVIEW then d\<lparr> approvalToken := Some uuid \<rparr>
                   else d)))"

definition createDefaultPolicy :: "'x PolicyConfig" where
  "createDefaultPolicy =
     \<lparr> rules =
         [ \<lparr> rule_id = ''deny-critical-delete'',
             description = Some ''Deny critical delete operations'',
             match = \<lparr> match_tool = None, match_action = Some ''delete_*'',
                       minSeverity = Some CRITICAL, callerType = None, custom = None \<rparr>,
             rule_effect = DENY,
             rule_reason = Some ''Critical delete operations are not allowed'' \<rparr>,
           \<lparr> rule_id = ''review-high-risk'',
             description = Some ''Require review for high-risk operations'',
             match = \<lparr> match_tool = None, match_action = None,
                       minSeverity = Some HIGH, callerType = None, custom = None \<rparr>,
             rule_effect = REVIEW,
             rule_reason = Some ''High-risk operations require human approval'' \<rparr>,
           \<lparr> rule_id = ''review-medium-writes'',
             description = Some ''Require review for medium-risk operations'',
             match = \<lparr> match_tool = None, match_action = None,
                       minSeverity = Some MEDIUM, callerType = None, custom = None \<rparr>,
             rule_effect = REVIEW,
             rule_reason = Some ''Medium-risk operations require human approval'' \<rparr>,
           \<lparr> rule_id = ''allow-safe-reads'',
             description = Some ''Allow safe read-only operations'',
             match = \<lparr> match_tool = None, match_action = None,
                       minSeverity = Some SAFE, callerType = None, custom = None \<rparr>,
             rule_effect = ALLOW,
             rule_reason = Some ''Safe read-only operation'' \<rparr> ],
       defaultEffect = REVIEW,
       defaultReason = Some ''Default policy requires review for unclassified operations'' \<rparr>"

section \<open>Approval manager (approval-manager.ts)\<close>

text \<open>
  A \<^verbatim>\<open>Date\<close> object holds a time value in milliseconds or \<^verbatim>\<open>NaN\<close> (an invalid date).
  A number that may be \<^verbatim>\<open>undefined\<close> or \<^verbatim>\<open>NaN\<close> is an \<open>int option\<close>; adding
  \<^verbatim>\<open>undefined\<close> to a number gives \<^verbatim>\<open>NaN\<close>.
\<close>

datatype Date = TimeValue int | InvalidDate

fun new_Date :: "int option \<Rightarrow> Date" where
  "new_Date None = InvalidDate"
| "new_Date (Some v) = (if \<bar>v\<bar> \<le> 8640000000000000 then TimeValue v else InvalidDate)"

fun plus_number :: "int \<Rightarrow> int option \<Rightarrow> int option" where
  "plus_number a None = None"
| "plus_number a (Some b) = Some (a + b)"

text \<open>\<^verbatim>\<open>a < b\<close> on two dates compares their time values; with \<^verbatim>\<open>NaN\<close> it is false.\<close>

fun date_less :: "Date \<Rightarrow> Date \<Rightarrow> bool" where
  "date_less (TimeValue a) (TimeValue b) = (a < b)"
| "date_less _ _ = False"

text \<open>The truth value of an optional number: \<^verbatim>\<open>undefined\<close> and 0 are falsy.\<close>

fun truthy_number :: "int option \<Rightarrow> bool" where
  "truthy_number None = False"
| "truthy_number (Some n) = (n \<noteq> 0)"

datatype ApprovalStatus = pending | approved | denied | expired

fun status_text :: "ApprovalStatus \<Rightarrow> string" where
  "status_text pending = ''pending''"
| "status_text approved = ''approved''"
| "status_text denied = ''denied''"
| "status_text expired = ''expired''"

record 'x PendingApproval =
  token :: string
  approval_context :: "'x ToolCallContext"
  decision :: PolicyDecision
  createdAt :: Date
  expiresAt :: "Date option"
  status :: ApprovalStatus

record 'x ApprovalResult =
  success :: bool
  approval :: "'x PendingApproval option"
  error :: "string option"

text \<open>
  The manager's map holds references to \<^verbatim>\<open>PendingApproval\<close> objects, and its methods
  assign to the \<^verbatim>\<open>status\<close> field of the object a token refers to. The objects live in
  \<open>objects\<close>, the address of an object being its index; \<open>pendingApprovals\<close> is the
  \<^verbatim>\<open>Map\<close> in insertion order, from tokens to addresses. \<open>timers\<close> are the callbacks
  handed to \<^verbatim>\<open>setTimeout\<close>, each with its token and delay; a callback that fires runs
  \<open>expireApproval\<close>. \<open>now\<close> is the clock reading of a call.
\<close>

record 'x ApprovalManager =
  objects :: "'x PendingApproval list"
  pendingApprovals :: "(string \<times> nat) list"
  defaultTTL :: "int option"
  timers :: "(string \<times> int option) list"

text \<open>
  The constructor spreads the configuration over \<^verbatim>\<open>{ defaultTTL: 60 * 60 * 1000 }\<close>:
  \<open>None\<close> is a configuration without the property, \<open>Some v\<close> one whose property is \<open>v\<close>
  (\<^verbatim>\<open>undefined\<close> included, which then replaces the hour).
\<close>

definition new_ApprovalManager :: "int option option \<Rightarrow> 'x ApprovalManager" where
  "new_ApprovalManager config =
     \<lparr> objects = [], pendingApprovals = [],
       defaultTTL = (case config of None \<Rightarrow> Some (60 * 60 * 1000) | Some v \<Rightarrow> v),
       timers = [] \<rparr>"

definition object_at :: "'x ApprovalManager \<Rightarrow> nat \<Rightarrow> 'x PendingApproval option" where
  "object_at m p = (if p < length (objects m) then Some (objects m ! p) else None)"

text \<open>
  \<^verbatim>\<open>this.pendingApprovals.get(token)\<close>: the reference stored under the token, with the
  object it refers to.
\<close>

definition pendingApprovals_get ::
  "'x ApprovalManager \<Rightarrow> string \<Rightarrow> (nat \<times> 'x PendingApproval) option" where
  "pendingApprovals_get m tok =
     (case map_of (pendingApprovals m) tok of
        None \<Rightarrow> None
      | Some p \<Rightarrow> map_option (Pair p) (object_at m p))"

definition getApproval :: "'x ApprovalManager \<Rightarrow> string \<Rightarrow> 'x PendingApproval option" where
  "getApproval m tok = map_option snd (pendingApprovals_get m tok)"

text \<open>The assignment \<^verbatim>\<open>approval.status = v\<close> to the object at address \<open>p\<close>.\<close>

definition set_status :: "'x ApprovalManager \<Rightarrow> nat \<Rightarrow> ApprovalStatus \<Rightarrow> 'x ApprovalManager" where
  "set_status m p v = m\<lparr> objects := (objects m)[p := (objects m ! p)\<lparr> status := v \<rparr>] \<rparr>"

definition createApproval ::
  "'x ApprovalManager \<Rightarrow> 'x ToolCallContext \<Rightarrow> PolicyDecision \<Rightarrow> int option \<Rightarrow> int \<Rightarrow>
     thrown + ('x ApprovalManager \<times> 'x PendingApproval)" where
  "createApproval m ctx d ttl now =
     (case approvalToken d of
        None \<Rightarrow> Inl (Error ''Cannot create approval without approval token'')
      | Some tok \<Rightarrow>
          if tok = [] then Inl (Error ''Cannot create approval without approval token'')
          else
            (let expires = (if truthy_number ttl then new_Date (plus_number now ttl)
                            else new_Date (plus_number now (defaultTTL m)));
                 a = \<lparr> token = tok, approval_context = ctx, decision = d,
                       createdAt = TimeValue now, expiresAt = Some expires, status = pending \<rparr>
             in Inr (m\<lparr> objects := objects m @ [a],
                         pendingApprovals :=
                           AList.update tok (length (objects m)) (pendingApprovals m),
                         timers := timers m
                           @ [(tok, if truthy_number ttl then ttl else defaultTTL m)] \<rparr>,
                     a)))"

definition listPendingApprovals :: "'x ApprovalManager \<Rightarrow> 'x PendingApproval list" where
  "listPendingApprovals m =
     filter (\<lambda>a. status a = pending)
       (concat (map (\<lambda>(tok, p). case object_at m p of None \<Rightarrow> [] | Some a \<Rightarrow> [a])
                  (pendingApprovals m)))"

definition grantApproval ::
  "'x ApprovalManager \<Rightarrow> string \<Rightarrow> 'x CallerIdentity \<Rightarrow> int \<Rightarrow>
     'x ApprovalManager \<times> 'x ApprovalResult" where
  "grantApproval m tok approver now =
     (case pendingApprovals_get m tok of
        None \<Rightarrow>
          (m, \<lparr> success = False, approval = None, error = Some ''Approval token not found'' \<rparr>)
      | Some (p, a) \<Rightarrow>
          if status a \<noteq> pending then
            (m, \<lparr> success = False, approval = None,
                  error = Some (''Approval is already '' @ status_text (status a)) \<rparr>)
          else if (case expiresAt a of None \<Rightarrow> False
                   | Some e \<Rightarrow> date_less e (TimeValue now)) then
            (set_status m p expired,
             \<lparr> success = False, approval = None, error = Some ''Approval token has expired'' \<rparr>)
          else
            (set_status m p approved,
             \<lparr> success = True, approval = Some (a\<lparr> status := approved \<rparr>), error = None \<rparr>))"

definition denyApproval ::
  "'x ApprovalManager \<Rightarrow> string \<Rightarrow> 'x CallerIdentity \<Rightarrow> 'x ApprovalManager \<times> 'x ApprovalResult" where
  "denyApproval m tok denier =
     (case pendingApprovals_get m tok of
        None \<Rightarrow>
          (m, \<lparr> success = False, approval = None, error = Some ''Approval token not found'' \<rparr>)
      | Some (p, a) \<Rightarrow>
          if status a \<noteq> pending then
            (m, \<lparr> success = False, approval = None,
                  error = Some (''Approval is already '' @ status_text (status a)) \<rparr>)
          else
            (set_status m p denied,
             \<lparr> success = True, approval = Some (a\<lparr> status := denied \<rparr>), error = None \<rparr>))"

definition expireApproval :: "'x ApprovalManager \<Rightarrow> string \<Rightarrow> 'x ApprovalManager" where
  "expireApproval m tok =
     (case pendingApprovals_get m tok of
        None \<Rightarrow> m
      | Some (p, a) \<Rightarrow> if status a = pending then set_status m p expired else m)"

text \<open>\<open>cleanup\<close> deletes entries of the map; the objects themselves are not touched.\<close>

definition cleanup :: "'x ApprovalManager \<Rightarrow> Date option \<Rightarrow> int \<Rightarrow> 'x ApprovalManager \<times> nat" where
  "cleanup m olderThan now =
     (let cutoff = (case olderThan of
                      None \<Rightarrow> new_Date (Some (now - 24 * 60 * 60 * 1000))
                    | Some d \<Rightarrow> d);
          old = (\<lambda>(tok, p). case object_at m p of
                               None \<Rightarrow> False
                             | Some a \<Rightarrow> status a \<noteq> pending \<and> date_less (createdAt a) cutoff)
      in (m\<lparr> pendingApprovals := filter (\<lambda>e. \<not> old e) (pendingApprovals m) \<rparr>,
          length (filter old (pendingApprovals m))))"

text \<open>
  The calls that change a manager, each with the clock reading of the call:
  \<open>call_expireApproval\<close> is a timer callback that fires. \<open>getApproval\<close> and
  \<open>listPendingApprovals\<close> only read.
\<close>

datatype 'x store_call =
    call_createApproval "'x ToolCallContext" PolicyDecision "int option"
  | call_grantApproval string "'x CallerIdentity"
  | call_denyApproval string "'x CallerIdentity"
  | call_expireApproval string
  | call_cleanup "Date option"

fun store_step :: "'x ApprovalManager \<Rightarrow> int \<times> 'x store_call \<Rightarrow> 'x ApprovalManager" where
  "store_step m (now, call_createApproval ctx d ttl) =
     (case createApproval m ctx d ttl now of Inl e \<Rightarrow> m | Inr (m', a) \<Rightarrow> m')"
| "store_step m (now, call_grantApproval tok approver) = fst (grantApproval m tok approver now)"
| "store_step m (now, call_denyApproval tok denier) = fst (denyApproval m tok denier)"
| "store_step m (now, call_expireApproval tok) = expireApproval m tok"
| "store_step m (now, call_cleanup olderThan) = fst (cleanup m olderThan now)"

text \<open>
  Two properties of every manager that the calls above lead to from a new one (lemmas
  \<open>allocated_step\<close> and \<open>unique_tokens_step\<close>): a token of the map refers to an
  object that exists, so \<open>pendingApprovals_get\<close> finds an object wherever the map has
  the token, and no token stands twice in the map, as in a \<^verbatim>\<open>Map\<close>.
\<close>

definition allocated :: "'x ApprovalManager \<Rightarrow> bool" where
  "allocated m = list_all (\<lambda>(tok, p). p < length (objects m)) (pendingApprovals m)"

definition unique_tokens :: "'x ApprovalManager \<Rightarrow> bool" where
  "unique_tokens m = distinct (map fst (pendingApprovals m))"

section \<open>Gateway (gateway.ts)\<close>

text \<open>
  The audit logger is an object behind the interface \<^verbatim>\<open>IAuditLogger\<close>, handed to the
  gateway by its configuration. Each of its five methods returns a promise, which may
  reject. The logger is a parameter of the model: a function that says, from the calls
  made on it so far and the present call, whether the promise resolves (\<open>None\<close>) or
  rejects with a value. The gateway's record keeps the calls made on the logger. The
  constructor of the model is always given a logger; the source builds an
  \<^verbatim>\<open>AuditLogger\<close> when the configuration has none.
\<close>

datatype 'x audit_call =
    logToolCall "'x ToolCallContext" PolicyDecision
  | logApprovalGranted "'x ToolCallContext" "'x CallerIdentity"
  | logApprovalDenied "'x ToolCallContext" "'x CallerIdentity"
  | logExecutionSuccess "'x ToolCallContext" 'x
  | logExecutionFailure "'x ToolCallContext" string

type_synonym 'x IAuditLogger = "'x audit_call list \<Rightarrow> 'x audit_call \<Rightarrow> thrown option"

record 'x SecureMCPGateway =
  policyEngine :: "'x PolicyConfig"
  auditLogger :: "'x IAuditLogger"
  approvalManager :: "'x ApprovalManager"
  audit_calls :: "'x audit_call list"

definition new_SecureMCPGateway ::
  "'x PolicyConfig \<Rightarrow> 'x IAuditLogger \<Rightarrow> int option \<Rightarrow> 'x SecureMCPGateway" where
  "new_SecureMCPGateway policy logger approvalTTL =
     \<lparr> policyEngine = policy, auditLogger = logger,
       approvalManager = new_ApprovalManager (Some approvalTTL), audit_calls = [] \<rparr>"

text \<open>\<^verbatim>\<open>await this.auditLogger.m(...)\<close>: the call is recorded, the answer is the logger's.\<close>

definition await_log ::
  "'x SecureMCPGateway \<Rightarrow> 'x audit_call \<Rightarrow> 'x SecureMCPGateway \<times> thrown option" where
  "await_log g c = (g\<lparr> audit_calls := audit_calls g @ [c] \<rparr>, auditLogger g (audit_calls g) c)"

record 'x ExecutionResult =
  exec_success :: bool
  exec_output :: "'x option"
  exec_error :: "string option"

record 'x GatewayCallResult =
  allowed :: bool
  call_decision :: PolicyDecision
  call_approvalToken :: "string option"
  call_context :: "'x ToolCallContext"
  result :: "'x ExecutionResult option"

text \<open>
  \<open>cid\<close> and \<open>uuid\<close> are the two values \<^verbatim>\<open>uuidv4()\<close> returns during the call (the call
  id, and the token of a review decision). \<open>now\<close> is the clock when the context is built,
  \<open>later\<close> the clock when, after the logger has been awaited, \<open>createApproval\<close> runs.
  A promise that rejects is \<open>Inl\<close> of the value thrown; what \<open>evaluatePolicy\<close> throws
  rejects the promise before the logger is called.
\<close>

definition evaluateToolCall ::
  "'x SecureMCPGateway \<Rightarrow> string \<Rightarrow> string \<Rightarrow> OperationSeverity \<Rightarrow> 'x CallerIdentity \<Rightarrow>
     'x option \<Rightarrow> 'x option \<Rightarrow> string \<Rightarrow> string \<Rightarrow> int \<Rightarrow> int \<Rightarrow>
     'x SecureMCPGateway \<times> (thrown + 'x GatewayCallResult)" where
  "evaluateToolCall g tname aname sev clr ags meta cid uuid now later =
     (let ctx = \<lparr> callId = cid, tool = tname, action = aname, severity = sev, caller = clr,
                   args = ags, timestamp = now, metadata = meta \<rparr>
      in case evaluatePolicy (policyEngine g) ctx uuid of
           Inl e \<Rightarrow> (g, Inl e)
         | Inr d \<Rightarrow>
             (case await_log g (logToolCall ctx d) of
                (g1, Some e) \<Rightarrow> (g1, Inl e)
              | (g1, None) \<Rightarrow>
                  (case effect d of
                     ALLOW \<Rightarrow>
                       (g1, Inr \<lparr> allowed = True, call_decision = d, call_approvalToken = None,
                                  call_context = ctx, result = None \<rparr>)
                   | DENY \<Rightarrow>
                       (g1, Inr \<lparr> allowed = False, call_decision = d, call_approvalToken = None,
                                  call_context = ctx, result = None \<rparr>)
                   | REVIEW \<Rightarrow>
                       (case createApproval (approvalManager g1) ctx d None later of
                          Inl e \<Rightarrow> (g1, Inl e)
                        | Inr (m, a) \<Rightarrow>
                            (g1\<lparr> approvalManager := m \<rparr>,
                             Inr \<lparr> allowed = False, call_decision = d,
                                   call_approvalToken = Some (token a),
                                   call_context = ctx, result = None \<rparr>)))))"

text \<open>
  The executor is a function without arguments that returns a promise; the gateway
  calls it at most once in a call, so it is given by how that one call settles.
\<close>

datatype 'x settled = Resolves 'x | Rejects thrown

fun error_message :: "thrown \<Rightarrow> string" where
  "error_message (Error msg) = msg"
| "error_message (NonError str) = str"

text \<open>The \<^verbatim>\<open>catch\<close> block of \<^verbatim>\<open>executeToolCall\<close> and \<^verbatim>\<open>grantApprovalAndExecute\<close>.\<close>

definition catch_block ::
  "'x SecureMCPGateway \<Rightarrow> 'x ToolCallContext \<Rightarrow> thrown \<Rightarrow>
     'x SecureMCPGateway \<times> (thrown + 'x ExecutionResult)" where
  "catch_block g ctx e =
     (let errorMessage = error_message e;
          (g1, rejected) = await_log g (logExecutionFailure ctx errorMessage)
      in case rejected of
           Some e' \<Rightarrow> (g1, Inl e')
         | None \<Rightarrow>
             (g1, Inr \<lparr> exec_success = False, exec_output = None,
                        exec_error = Some errorMessage \<rparr>))"

text \<open>The \<^verbatim>\<open>try\<close> statement of both methods: the executor runs, once.\<close>

definition try_block ::
  "'x SecureMCPGateway \<Rightarrow> 'x ToolCallContext \<Rightarrow> 'x settled \<Rightarrow>
     'x SecureMCPGateway \<times> (thrown + 'x ExecutionResult)" where
  "try_block g ctx executor =
     (case executor of
        Rejects e \<Rightarrow> catch_block g ctx e
      | Resolves out \<Rightarrow>
          (let (g1, rejected) = await_log g (logExecutionSuccess ctx out)
           in case rejected of
                Some e \<Rightarrow> catch_block g1 ctx e
              | None \<Rightarrow>
                  (g1, Inr \<lparr> exec_success = True, exec_output = Some out,
                             exec_error = None \<rparr>)))"

text \<open>What a call of a gateway method leaves: the gateway, how the promise settled, and
  how often the executor was called.\<close>

record 'x outcome =
  gateway :: "'x SecureMCPGateway"
  settled :: "thrown + 'x GatewayCallResult"
  executor_calls :: nat

definition executeToolCall ::
  "'x SecureMCPGateway \<Rightarrow> string \<Rightarrow> string \<Rightarrow> OperationSeverity \<Rightarrow> 'x CallerIdentity \<Rightarrow>
     'x settled \<Rightarrow> 'x option \<Rightarrow> 'x option \<Rightarrow> string \<Rightarrow> string \<Rightarrow> int \<Rightarrow> int \<Rightarrow>
     'x outcome" where
  "executeToolCall g tname aname sev clr executor ags meta cid uuid now later =
     (case evaluateToolCall g tname aname sev clr ags meta cid uuid now later of
        (g1, Inl e) \<Rightarrow> \<lparr> gateway = g1, settled = Inl e, executor_calls = 0 \<rparr>
      | (g1, Inr evalResult) \<Rightarrow>
          if \<not> allowed evalResult then
            \<lparr> gateway = g1, settled = Inr evalResult, executor_calls = 0 \<rparr>
          else
            (case try_block g1 (call_context evalResult) executor of
               (g2, Inl e) \<Rightarrow> \<lparr> gateway = g2, settled = Inl e, executor_calls = 1 \<rparr>
             | (g2, Inr r) \<Rightarrow>
                 \<lparr> gateway = g2, settled = Inr (evalResult\<lparr> result := Some r \<rparr>),
                   executor_calls = 1 \<rparr>))"

definition grantApprovalAndExecute ::
  "'x SecureMCPGateway \<Rightarrow> string \<Rightarrow> 'x CallerIdentity \<Rightarrow> 'x settled \<Rightarrow> int \<Rightarrow> 'x outcome" where
  "grantApprovalAndExecute g tok approver executor now =
     (case grantApproval (approvalManager g) tok approver now of
        (m, res) \<Rightarrow>
          (let g0 = g\<lparr> approvalManager := m \<rparr> in
           case (if success res then approval res else None) of
             None \<Rightarrow>
               \<lparr> gateway = g0, settled = Inl (Error (or_else (error res) ''Failed to grant approval'')),
                 executor_calls = 0 \<rparr>
           | Some a \<Rightarrow>
               (case await_log g0 (logApprovalGranted (approval_context a) approver) of
                  (g1, Some e) \<Rightarrow> \<lparr> gateway = g1, settled = Inl e, executor_calls = 0 \<rparr>
                | (g1, None) \<Rightarrow>
                    (case try_block g1 (approval_context a) executor of
                       (g2, Inl e) \<Rightarrow> \<lparr> gateway = g2, settled = Inl e, executor_calls = 1 \<rparr>
                     | (g2, Inr r) \<Rightarrow>
                         \<lparr> gateway = g2,
                           settled = Inr \<lparr> allowed = True, call_decision = decision a,
                                          call_approvalToken = None,
                                          call_context = approval_context a,
                                          result = Some r \<rparr>,
                           executor_calls = 1 \<rparr>))))"

text \<open>\<^verbatim>\<open>denyApproval\<close> of the gateway; it resolves with no value.\<close>

definition gateway_denyApproval ::
  "'x SecureMCPGateway \<Rightarrow> string \<Rightarrow> 'x CallerIdentity \<Rightarrow> 'x SecureMCPGateway \<times> thrown option" where
  "gateway_denyApproval g tok denier =
     (case denyApproval (approvalManager g) tok denier of
        (m, res) \<Rightarrow>
          (let g0 = g\<lparr> approvalManager := m \<rparr> in
           case (if success res then approval res else None) of
             None \<Rightarrow> (g0, Some (Error (or_else (error res) ''Failed to deny approval'')))
           | Some a \<Rightarrow> await_log g0 (logApprovalDenied (approval_context a) denier)))"

text \<open>\<^verbatim>\<open>message.includes(part)\<close>, the test that an error message contains a text.\<close>

fun js_includes :: "string \<Rightarrow> string \<Rightarrow> bool" where
  "js_includes [] part = (part = [])"
| "js_includes (c # cs) part = (take (length part) (c # cs) = part \<or> js_includes cs part)"

section \<open>Concrete inputs\<close>

text \<open>The caller, context and review decision of the approval manager's test suite.\<close>

definition test_caller :: "unit CallerIdentity" where
  "test_caller =
     \<lparr> caller_id = ''test-caller-001'', caller_name = ''Test Caller'',
       caller_type = agent, caller_metadata = None \<rparr>"

definition test_context :: "unit ToolCallContext" where
  "test_context =
     \<lparr> callId = ''test-call-001'', tool = ''test-tool'', action = ''test-action'',
       severity = MEDIUM, caller = test_caller, args = None, timestamp = 1000,
       metadata = None \<rparr>"

definition test_decision :: PolicyDecision where
  "test_decision =
     \<lparr> effect = REVIEW, reason = ''Test approval required'', rule = Some ''test-rule'',
       approvalToken = Some ''test-token-001'' \<rparr>"

text \<open>
  The approval that \<open>createApproval\<close> registers at time 1000 with a ttl of 10
  milliseconds, and the manager (default ttl one minute) that then holds it.
\<close>

definition short_lived :: "unit PendingApproval" where
  "short_lived =
     \<lparr> token = ''test-token-001'', approval_context = test_context, decision = test_decision,
       createdAt = TimeValue 1000, expiresAt = Some (TimeValue 1010), status = pending \<rparr>"

definition short_lived_store :: "unit ApprovalManager" where
  "short_lived_store =
     \<lparr> objects = [short_lived], pendingApprovals = [(''test-token-001'', 0)],
       defaultTTL = Some 60000, timers = [(''test-token-001'', Some 10)] \<rparr>"

text \<open>
  The approval that \<open>createApproval\<close> registers at time 1000 with the default ttl of
  that manager, the manager holding it, and the manager after the approval is granted.
\<close>

definition pending_approval :: "unit PendingApproval" where
  "pending_approval =
     \<lparr> token = ''test-token-001'', approval_context = test_context, decision = test_decision,
       createdAt = TimeValue 1000, expiresAt = Some (TimeValue 61000), status = pending \<rparr>"

definition pending_store :: "unit ApprovalManager" where
  "pending_store =
     \<lparr> objects = [pending_approval], pendingApprovals = [(''test-token-001'', 0)],
       defaultTTL = Some 60000, timers = [(''test-token-001'', Some 60000)] \<rparr>"

definition approved_store :: "unit ApprovalManager" where
  "approved_store = pending_store\<lparr> objects := [pending_approval\<lparr> status := approved \<rparr>] \<rparr>"

text \<open>
  The approval that \<open>createApproval\<close> registers at time 1000 with a ttl of 0 in a manager
  built without a configuration (default ttl one hour), and the manager holding it.
\<close>

definition zero_ttl_approval :: "unit PendingApproval" where
  "zero_ttl_approval =
     \<lparr> token = ''test-token-001'', approval_context = test_context, decision = test_decision,
       createdAt = TimeValue 1000, expiresAt = Some (TimeValue 3601000), status = pending \<rparr>"

definition zero_ttl_store :: "unit ApprovalManager" where
  "zero_ttl_store =
     \<lparr> objects = [zero_ttl_approval], pendingApprovals = [(''test-token-001'', 0)],
       defaultTTL = Some 3600000, timers = [(''test-token-001'', Some 3600000)] \<rparr>"

text \<open>
  Two gateways with the default policy: the logger of the first resolves every call, the
  logger of the second rejects \<^verbatim>\<open>logExecutionFailure\<close>. A call of severity \<open>SAFE\<close>, which
  the default policy allows, with its context and decision.
\<close>

definition accepting_logger :: "unit IAuditLogger" where
  "accepting_logger calls c = None"

definition failing_logger :: "unit IAuditLogger" where
  "failing_logger calls c =
     (case c of
        logExecutionFailure ctx msg \<Rightarrow> Some (Error ''audit log unavailable'')
      | _ \<Rightarrow> None)"

definition test_gateway :: "unit SecureMCPGateway" where
  "test_gateway = new_SecureMCPGateway createDefaultPolicy accepting_logger (Some 60000)"

definition failing_log_gateway :: "unit SecureMCPGateway" where
  "failing_log_gateway = new_SecureMCPGateway createDefaultPolicy failing_logger (Some 60000)"

definition safe_context :: "unit ToolCallContext" where
  "safe_context =
     \<lparr> callId = ''call-1'', tool = ''jira'', action = ''search_issues'', severity = SAFE,
       caller = test_caller, args = None, timestamp = 1000, metadata = None \<rparr>"

definition safe_decision :: PolicyDecision where
  "safe_decision =
     \<lparr> effect = ALLOW, reason = ''Safe read-only operation'', rule = Some ''allow-safe-reads'',
       approvalToken = None \<rparr>"

text \<open>
  A policy whose only rule has the empty string for its tool pattern; the policy of one
  rule that denies critical deletions; a call of \<^verbatim>\<open>delete_db\<close> at a given severity.
\<close>

definition empty_glob_rule :: "unit PolicyRule" where
  "empty_glob_rule =
     \<lparr> rule_id = ''deny-unnamed'', description = None,
       match = \<lparr> match_tool = Some [], match_action = None, minSeverity = None,
                 callerType = None, custom = None \<rparr>,
       rule_effect = DENY, rule_reason = None \<rparr>"

definition empty_glob_policy :: "unit PolicyConfig" where
  "empty_glob_policy =
     \<lparr> rules = [empty_glob_rule], defaultEffect = ALLOW, defaultReason = None \<rparr>"

definition critical_delete_policy :: "unit PolicyConfig" where
  "critical_delete_policy =
     \<lparr> rules =
         [ \<lparr> rule_id = ''deny-critical-delete'', description = None,
             match = \<lparr> match_tool = None, match_action = Some ''delete_*'',
                       minSeverity = Some CRITICAL, callerType = None, custom = None \<rparr>,
             rule_effect = DENY, rule_reason = None \<rparr> ],
       defaultEffect = ALLOW, defaultReason = None \<rparr>"

definition delete_context :: "OperationSeverity \<Rightarrow> unit ToolCallContext" where
  "delete_context sev =
     \<lparr> callId = ''call-2'', tool = ''database'', action = ''delete_db'', severity = sev,
       caller = test_caller, args = None, timestamp = 1000, metadata = None \<rparr>"


text \<open>
  The policy whose only rule has a custom matcher that throws; the policy with no rule
  that sends every call to review; the value \<^verbatim>\<open>delete_\<close>, line feed, \<^verbatim>\<open>db\<close>, and a critical
  call with that action.
\<close>

definition throwing_rule :: "unit PolicyRule" where
  "throwing_rule =
     \<lparr> rule_id = ''custom-check'', description = None,
       match = \<lparr> match_tool = None, match_action = None, minSeverity = None,
                 callerType = None,
                 custom = Some (\<lambda>ctx. Inl (Error ''matcher failed'')) \<rparr>,
       rule_effect = DENY, rule_reason = None \<rparr>"

definition throwing_policy :: "unit PolicyConfig" where
  "throwing_policy =
     \<lparr> rules = [throwing_rule], defaultEffect = ALLOW, defaultReason = None \<rparr>"

definition review_all_policy :: "unit PolicyConfig" where
  "review_all_policy = \<lparr> rules = [], defaultEffect = REVIEW, defaultReason = None \<rparr>"

definition delete_lf_db :: string where
  "delete_lf_db = ''delete_'' @ [CHR 0x0A] @ ''db''"

definition delete_lf_context :: "unit ToolCallContext" where
  "delete_lf_context =
     \<lparr> callId = ''call-3'', tool = ''database'', action = delete_lf_db, severity = CRITICAL,
       caller = test_caller, args = None, timestamp = 1000, metadata = None \<rparr>"

text \<open>The policy of the rule that denies critical deletions, followed by the throwing rule.\<close>

definition throwing_second_policy :: "unit PolicyConfig" where
  "throwing_second_policy =
     \<lparr> rules = rules critical_delete_policy @ [throwing_rule],
       defaultEffect = ALLOW, defaultReason = None \<rparr>"
section \<open>Decisions and tokens\<close>

lemma evaluate_rules_token:
  "evaluate_rules rs ctx uuid = Inr (Some d) \<Longrightarrow> (approvalToken d \<noteq> None) = (effect d = REVIEW)"
  by (induction rs) (auto split: if_splits sum.splits simp: Let_def)

lemma safe_decision_eval:
  "evaluatePolicy createDefaultPolicy safe_context uuid = Inr safe_decision"
  by (simp add: evaluatePolicy_def createDefaultPolicy_def safe_context_def safe_decision_def
      matchesRule_def Let_def)

lemma review_all_eval:
  "evaluatePolicy review_all_policy safe_context uuid
     = Inr \<lparr> effect = REVIEW, reason = ''Operation requires human approval'', rule = None,
             approvalToken = Some uuid \<rparr>"
  by (simp add: evaluatePolicy_def review_all_policy_def getDefaultReason_def Let_def)

text \<open>
  C2. The decision \<open>evaluatePolicy\<close> returns carries an approval token exactly when its
  effect is \<open>REVIEW\<close>, whether a rule matched or the default of the policy applied.
\<close>

theorem decision_token_iff_review:
  "evaluatePolicy config ctx uuid = Inr d \<Longrightarrow> (approvalToken d \<noteq> None) = (effect d = REVIEW)"
  by (cases "evaluate_rules (rules config) ctx uuid")
     (auto simp: evaluatePolicy_def Let_def dest: evaluate_rules_token
       split: option.splits if_splits)

theorem decision_token_iff_review_witness:
  "evaluatePolicy createDefaultPolicy safe_context ''token-1'' = Inr safe_decision
   \<and> effect safe_decision = ALLOW
   \<and> approvalToken safe_decision = None
   \<and> evaluatePolicy review_all_policy safe_context ''token-1''
       = Inr \<lparr> effect = REVIEW, reason = ''Operation requires human approval'', rule = None,
               approvalToken = Some ''token-1'' \<rparr>
   \<and> (approvalToken \<lparr> effect = REVIEW, reason = ''Operation requires human approval'',
                        rule = None, approvalToken = Some ''token-1'' \<rparr> \<noteq> None)"
proof -
  have e: "effect safe_decision = ALLOW" by (simp add: safe_decision_def)
  show ?thesis
    using decision_token_iff_review [OF safe_decision_eval [of "''token-1''"]]
      decision_token_iff_review [OF review_all_eval [of "''token-1''"]]
      safe_decision_eval [of "''token-1''"] review_all_eval [of "''token-1''"] e
    by simp
qed

section \<open>Glob patterns\<close>

text \<open>
  The specification's reading of a glob: the value is the pattern with each \<^verbatim>\<open>*\<close>
  replaced by some run of characters, possibly empty, and every other character of the
  pattern taken for itself, up to case. \<open>glob_matches pattern v\<close> goes through the
  pattern: at a \<^verbatim>\<open>*\<close> some prefix of the value is the run.
\<close>

fun glob_matches :: "string \<Rightarrow> string \<Rightarrow> bool" where
  "glob_matches [] v = (v = [])"
| "glob_matches (c # cs) v =
     (if c = CHR ''*'' then list_ex (\<lambda>k. glob_matches cs (drop k v)) [0..<Suc (length v)]
      else (case v of [] \<Rightarrow> False
            | x # xs \<Rightarrow> canonicalize x = canonicalize c \<and> glob_matches cs xs))"

text \<open>
  What the code accepts, as lemma \<open>matchesPattern_in_lines\<close> shows: the same, but the run
  that stands for a \<^verbatim>\<open>*\<close> holds no line terminator.
\<close>

fun glob_matches_in_lines :: "string \<Rightarrow> string \<Rightarrow> bool" where
  "glob_matches_in_lines [] v = (v = [])"
| "glob_matches_in_lines (c # cs) v =
     (if c = CHR ''*'' then
        list_ex (\<lambda>k. list_all (\<lambda>x. \<not> line_terminator x) (take k v)
                     \<and> glob_matches_in_lines cs (drop k v)) [0..<Suc (length v)]
      else (case v of [] \<Rightarrow> False
            | x # xs \<Rightarrow> canonicalize x = canonicalize c \<and> glob_matches_in_lines cs xs))"

text \<open>The tokens and terms of the regular expression that \<open>matchesPattern\<close> builds.\<close>

definition glob_tokens :: "string \<Rightarrow> rx_token list" where
  "glob_tokens p = concat (map (\<lambda>c. if c = CHR ''*'' then [TDot, TStar] else [TChar c]) p)"

definition glob_terms :: "string \<Rightarrow> rx_term list" where
  "glob_terms p = map (\<lambda>c. if c = CHR ''*'' then Star ADot else Atom (AChar c)) p"

lemma glob_tokens_Cons:
  "glob_tokens (c # cs) = (if c = CHR ''*'' then [TDot, TStar] else [TChar c]) @ glob_tokens cs"
  by (simp add: glob_tokens_def)

lemma glob_terms_Cons:
  "glob_terms (c # cs) = (if c = CHR ''*'' then Star ADot else Atom (AChar c)) # glob_terms cs"
  by (simp add: glob_terms_def)

lemma split_star_not_Nil: "split_star p \<noteq> []"
  by (induction p) (auto split: list.splits)

lemma join_append_head: "join sep ((a @ b) # ps) = a @ join sep (b # ps)"
  by (cases ps) simp_all

lemma regexPattern_Nil: "regexPattern [] = []"
  by (simp add: regexPattern_def escape_part_def)

lemma regexPattern_Cons:
  "regexPattern (c # cs)
     = (if c = CHR ''*'' then ''.*''
        else if c \<in> set syntax_characters then [backslash, c] else [c]) @ regexPattern cs"
proof -
  obtain q qs where s: "split_star cs = q # qs"
    using split_star_not_Nil [of cs] by (cases "split_star cs") auto
  show ?thesis
  proof (cases "c = CHR ''*''")
    case True
    with s show ?thesis
      by (simp add: regexPattern_def escape_part_def)
  next
    case False
    have "escape_part (c # q)
        = (if c \<in> set syntax_characters then [backslash, c] else [c]) @ escape_part q"
      by (simp add: escape_part_def)
    with False s show ?thesis
      using join_append_head [of "''.*''"
          "if c \<in> set syntax_characters then [backslash, c] else [c]" "escape_part q"
          "map escape_part qs"]
      by (simp add: regexPattern_def)
  qed
qed

lemma rx_lex_regexPattern:
  "rx_lex (regexPattern p @ rest) = map_option ((@) (glob_tokens p)) (rx_lex rest)"
proof (induction p)
  case Nil
  show ?case by (simp add: regexPattern_Nil glob_tokens_def option.map_ident)
next
  case (Cons c cs)
  show ?case
  proof (cases "c = CHR ''*''")
    case True
    then show ?thesis
      using Cons.IH
      by (simp add: regexPattern_Cons glob_tokens_Cons backslash_def option.map_comp comp_def)
  next
    case False
    show ?thesis
    proof (cases "c \<in> set syntax_characters")
      case True
      with False show ?thesis
        using Cons.IH
        by (simp add: regexPattern_Cons glob_tokens_Cons option.map_comp comp_def)
    next
      case n: False
      then have "c \<noteq> backslash" "c \<noteq> CHR ''.''" "c \<noteq> CHR ''^''" "c \<noteq> CHR ''$''"
        by (auto simp: syntax_characters_def)
      with n False show ?thesis
        using Cons.IH
        by (simp add: regexPattern_Cons glob_tokens_Cons option.map_comp comp_def)
    qed
  qed
qed

lemma rx_terms_glob_tokens:
  "rx_terms (glob_tokens p @ [TDollar]) = Some (glob_terms p @ [Assert_End])"
proof (induction p)
  case Nil
  show ?case by (simp add: glob_tokens_def glob_terms_def)
next
  case (Cons c cs)
  show ?case
  proof (cases "c = CHR ''*''")
    case True
    with Cons.IH show ?thesis by (simp add: glob_tokens_Cons glob_terms_Cons)
  next
    case False
    have "\<exists>t ts. glob_tokens cs @ [TDollar] = t # ts \<and> t \<noteq> TStar"
      by (cases cs) (simp_all add: glob_tokens_def)
    then obtain t ts where h: "glob_tokens cs @ [TDollar] = t # ts" "t \<noteq> TStar"
      by blast
    then have "rx_terms (TChar c # t # ts)
        = map_option (Cons (Atom (AChar c))) (rx_terms (t # ts))"
      by (cases t) simp_all
    with False Cons.IH h show ?thesis by (simp add: glob_tokens_Cons glob_terms_Cons)
  qed
qed

lemma RegExp_regexPattern:
  "RegExp (''^'' @ regexPattern p @ ''$'') = Some (Assert_Start # glob_terms p @ [Assert_End])"
proof -
  have "rx_lex (''^'' @ regexPattern p @ ''$'') = Some (TCaret # glob_tokens p @ [TDollar])"
    using rx_lex_regexPattern [of p "''$''"] by (simp add: backslash_def)
  then show ?thesis
    by (simp add: RegExp_def rx_terms_glob_tokens)
qed

lemma regexPattern_compiles: "RegExp (''^'' @ regexPattern p @ ''$'') \<noteq> None"
  using RegExp_regexPattern [of p] by simp

lemma rx_search_not_at_start: "rx_search (Assert_Start # ts) False s = False"
  by (induction s) simp_all

lemma matchesPattern_rx_match:
  "matchesPattern v p = rx_match (glob_terms p @ [Assert_End]) True v"
  using RegExp_regexPattern [of p]
  by (cases v) (simp_all add: matchesPattern_def RegExp_test_def rx_search_not_at_start)

lemma ex_upt_Suc:
  "list_ex P [0..<Suc (Suc n)] = (P 0 \<or> list_ex (\<lambda>k. P (Suc k)) [0..<Suc n])"
proof -
  have "(\<exists>k<Suc (Suc n). P k) = (P 0 \<or> (\<exists>k<Suc n. P (Suc k)))"
    by (auto simp: less_Suc_eq_0_disj)
  then show ?thesis
    by (simp only: list_ex_iff set_upt Bex_def atLeastLessThan_iff le0 simp_thms)
qed

lemma star_dot_runs:
  assumes "\<And>v b. rx_match ts b v = G v"
  shows "rx_match (Star ADot # ts) b v
       = list_ex (\<lambda>k. list_all (\<lambda>x. \<not> line_terminator x) (take k v) \<and> G (drop k v))
           [0..<Suc (length v)]"
proof (induction v arbitrary: b)
  case Nil
  show ?case using assms [of b "[]"] by simp
next
  case (Cons x xs)
  let ?P = "\<lambda>k. list_all (\<lambda>x. \<not> line_terminator x) (take k (x # xs)) \<and> G (drop k (x # xs))"
  have "rx_match (Star ADot # ts) b (x # xs)
      = (G (x # xs) \<or> (\<not> line_terminator x \<and> rx_match (Star ADot # ts) False xs))"
    using assms [of b "x # xs"] by simp
  also have "\<dots> = (?P 0 \<or> list_ex (\<lambda>k. ?P (Suc k)) [0..<Suc (length xs)])"
    using Cons.IH [of False] by (auto simp: list_ex_iff)
  also have "\<dots> = list_ex ?P [0..<Suc (length (x # xs))]"
    using ex_upt_Suc [of ?P "length xs"] by simp
  finally show ?case .
qed

lemma rx_match_glob_in_lines:
  "rx_match (glob_terms p @ [Assert_End]) b v = glob_matches_in_lines p v"
proof (induction p arbitrary: v b)
  case Nil
  show ?case by (simp add: glob_terms_def)
next
  case (Cons c cs)
  show ?case
  proof (cases "c = CHR ''*''")
    case True
    have "rx_match (Star ADot # glob_terms cs @ [Assert_End]) b v
        = list_ex (\<lambda>k. list_all (\<lambda>x. \<not> line_terminator x) (take k v)
                       \<and> glob_matches_in_lines cs (drop k v)) [0..<Suc (length v)]"
      by (rule star_dot_runs [OF Cons.IH])
    with True show ?thesis by (simp add: glob_terms_Cons)
  next
    case False
    with Cons.IH [of False] show ?thesis
      by (cases v) (simp_all add: glob_terms_Cons)
  qed
qed

lemma matchesPattern_in_lines: "matchesPattern v p = glob_matches_in_lines p v"
  by (simp add: matchesPattern_rx_match rx_match_glob_in_lines)

lemma glob_in_lines_eq:
  "\<forall>x \<in> set v. \<not> line_terminator x \<Longrightarrow> glob_matches_in_lines p v = glob_matches p v"
proof (induction p arbitrary: v)
  case Nil
  show ?case by simp
next
  case (Cons c cs)
  have d: "\<forall>x \<in> set (drop k v). \<not> line_terminator x" for k
    using Cons.prems by (auto dest: in_set_dropD)
  have t: "list_all (\<lambda>x. \<not> line_terminator x) (take k v)" for k
    using Cons.prems by (auto simp: list_all_iff dest: in_set_takeD)
  show ?case
  proof (cases "c = CHR ''*''")
    case True
    then show ?thesis using Cons.IH [OF d] t by simp
  next
    case False
    then show ?thesis using Cons.IH Cons.prems by (cases v) simp_all
  qed
qed

lemma matchesPattern_glob:
  "\<forall>x \<in> set v. \<not> line_terminator x \<Longrightarrow> matchesPattern v p = glob_matches p v"
  by (simp add: matchesPattern_in_lines glob_in_lines_eq)

lemma glob_in_lines_imp: "glob_matches_in_lines p v \<Longrightarrow> glob_matches p v"
proof (induction p arbitrary: v)
  case Nil
  then show ?case by simp
next
  case (Cons c cs)
  show ?case
  proof (cases "c = CHR ''*''")
    case True
    with Cons show ?thesis by (auto simp: list_ex_iff)
  next
    case False
    with Cons show ?thesis by (cases v) auto
  qed
qed


text \<open>
  C9. The claim: glob matching is anchored and case-insensitive, and a \<^verbatim>\<open>*\<close> stands for
  any run of characters. The code accepts no value that the claim rejects (lemma
  \<open>glob_in_lines_imp\<close>) and agrees with the claim on every value without a line
  terminator (lemma \<open>matchesPattern_glob\<close>), so on the three examples of the claim. It
  builds \<^verbatim>\<open>.*\<close> with no \<^verbatim>\<open>s\<close> flag, and the dot does not match a line terminator: the
  value \<^verbatim>\<open>delete_\<close>, line feed, \<^verbatim>\<open>db\<close> is the pattern \<^verbatim>\<open>delete_*\<close> with the star replaced
  by a run of three characters, and \<open>matchesPattern\<close> rejects it.
\<close>

theorem star_stops_at_line_feed:
  "matchesPattern ''delete_db'' ''delete_*''
   \<and> matchesPattern ''DELETE_DB'' ''delete_*''
   \<and> \<not> matchesPattern ''update_db'' ''delete_*''
   \<and> glob_matches ''delete_*'' (''delete_'' @ [CHR 0x0A] @ ''db'')
   \<and> \<not> matchesPattern (''delete_'' @ [CHR 0x0A] @ ''db'') ''delete_*''"
  by code_simp

section \<open>The first matching rule\<close>

text \<open>
  The specification's reading of a match-spec. Every field that is present is satisfied,
  a field that is absent matches anything: the tool and the action by the glob of the
  specification, the severity by its rank, the caller kind by equality. The custom
  predicate is evaluated on the context, and its exception is not swallowed:
  \<open>match_satisfied\<close> is \<open>Inr True\<close> for a rule that matches, \<open>Inr False\<close> for one that
  does not, and \<open>Inl\<close> of the exception when the other fields are satisfied and the
  predicate throws.
\<close>

definition fields_satisfied :: "'x ToolCallContext \<Rightarrow> 'x PolicyRule \<Rightarrow> bool" where
  "fields_satisfied ctx r =
     ((case match_tool (match r) of None \<Rightarrow> True | Some pat \<Rightarrow> glob_matches pat (tool ctx))
    \<and> (case match_action (match r) of None \<Rightarrow> True | Some pat \<Rightarrow> glob_matches pat (action ctx))
    \<and> (case minSeverity (match r) of
          None \<Rightarrow> True
        | Some m \<Rightarrow> SEVERITY_ORDER m \<le> SEVERITY_ORDER (severity ctx))
    \<and> (case callerType (match r) of None \<Rightarrow> True | Some t \<Rightarrow> caller_type (caller ctx) = t))"

definition match_satisfied :: "'x ToolCallContext \<Rightarrow> 'x PolicyRule \<Rightarrow> thrown + bool" where
  "match_satisfied ctx r =
     (if fields_satisfied ctx r then
        (case custom (match r) of None \<Rightarrow> Inr True | Some f \<Rightarrow> f ctx)
      else Inr False)"

text \<open>
  Where the pattern test of the code is the glob of the specification: the pattern is
  not the empty string, unless the value is empty too, and the value holds no line
  terminator, unless the pattern has no \<^verbatim>\<open>*\<close>. A rule is in scope for a context when its
  tool and action patterns, where present, are.
\<close>

definition glob_in_scope :: "string \<Rightarrow> string \<Rightarrow> bool" where
  "glob_in_scope pat v =
     ((pat \<noteq> [] \<or> v = [])
      \<and> (CHR ''*'' \<notin> set pat \<or> list_all (\<lambda>x. \<not> line_terminator x) v))"

definition globs_in_scope :: "'x ToolCallContext \<Rightarrow> 'x PolicyRule \<Rightarrow> bool" where
  "globs_in_scope ctx r =
     ((case match_tool (match r) of None \<Rightarrow> True | Some pat \<Rightarrow> glob_in_scope pat (tool ctx))
    \<and> (case match_action (match r) of None \<Rightarrow> True | Some pat \<Rightarrow> glob_in_scope pat (action ctx)))"

lemma glob_in_lines_no_star:
  "CHR ''*'' \<notin> set p \<Longrightarrow> glob_matches_in_lines p v = glob_matches p v"
proof (induction p arbitrary: v)
  case Nil
  show ?case by simp
next
  case (Cons c cs)
  then have "c \<noteq> CHR ''*''" "CHR ''*'' \<notin> set cs" by auto
  with Cons.IH show ?case by (cases v) simp_all
qed

lemma glob_in_scope_agrees:
  assumes "glob_in_scope pat v"
  shows "(pat \<noteq> [] \<and> \<not> matchesPattern v pat) = (\<not> glob_matches pat v)"
proof (cases "pat = []")
  case True
  with assms show ?thesis by (simp add: glob_in_scope_def)
next
  case False
  from assms have "glob_matches_in_lines pat v = glob_matches pat v"
    using glob_in_lines_no_star [of pat v] glob_in_lines_eq [of v pat]
    by (auto simp: glob_in_scope_def list_all_iff)
  with False show ?thesis by (simp add: matchesPattern_in_lines)
qed

lemma matchesRule_satisfied:
  assumes "globs_in_scope ctx r"
  shows "matchesRule ctx r = match_satisfied ctx r"
proof -
  have t: "(case match_tool (match r) of None \<Rightarrow> False
            | Some pat \<Rightarrow> truthy (Some pat) \<and> \<not> matchesPattern (tool ctx) pat)
         = (\<not> (case match_tool (match r) of None \<Rightarrow> True
                | Some pat \<Rightarrow> glob_matches pat (tool ctx)))"
    using assms
    by (cases "match_tool (match r)") (simp_all add: globs_in_scope_def glob_in_scope_agrees)
  have a: "(case match_action (match r) of None \<Rightarrow> False
            | Some pat \<Rightarrow> truthy (Some pat) \<and> \<not> matchesPattern (action ctx) pat)
         = (\<not> (case match_action (match r) of None \<Rightarrow> True
                | Some pat \<Rightarrow> glob_matches pat (action ctx)))"
    using assms
    by (cases "match_action (match r)") (simp_all add: globs_in_scope_def glob_in_scope_agrees)
  show ?thesis
    unfolding matchesRule_def match_satisfied_def fields_satisfied_def t a
    by (auto simp: not_less split: option.splits sum.splits)
qed

lemma evaluate_rules_skip:
  "i \<le> length rs \<Longrightarrow> \<forall>j<i. matchesRule ctx (rs ! j) = Inr False \<Longrightarrow>
     evaluate_rules rs ctx uuid = evaluate_rules (drop i rs) ctx uuid"
proof (induction rs arbitrary: i)
  case Nil
  then show ?case by simp
next
  case (Cons r rs)
  show ?case
  proof (cases i)
    case 0
    then show ?thesis by simp
  next
    case (Suc k)
    from Cons.prems(2) Suc have r: "matchesRule ctx r = Inr False" by auto
    from Cons.prems(2) Suc have "\<forall>j<k. matchesRule ctx (rs ! j) = Inr False" by auto
    with Cons.IH [of k] Cons.prems(1) Suc r show ?thesis by simp
  qed
qed

lemma evaluate_rules_at:
  assumes "i < length rs" and "\<forall>j<i. matchesRule ctx (rs ! j) = Inr False"
  shows "evaluate_rules rs ctx uuid = evaluate_rules (rs ! i # drop (Suc i) rs) ctx uuid"
  using evaluate_rules_skip [of i rs ctx uuid] assms
  by (simp add: Cons_nth_drop_Suc)

lemma evaluate_rules_none:
  "\<forall>r \<in> set rs. matchesRule ctx r = Inr False \<Longrightarrow> evaluate_rules rs ctx uuid = Inr None"
  by (induction rs) simp_all

text \<open>
  C1 (amended). \<open>evaluatePolicy\<close> goes through the rules in list order, over rules that
  are in scope for the context. When the rules before rule \<open>i\<close> are not satisfied and
  rule \<open>i\<close> is, it returns the effect and the id of rule \<open>i\<close>, with that rule's reason
  when it gives a non-empty one and a reason made from the effect and the rule id
  otherwise. When the rules before rule \<open>i\<close> are not satisfied and the custom predicate of
  rule \<open>i\<close>, its other fields being satisfied, throws, \<open>evaluatePolicy\<close> throws the same
  value and returns no decision. When no rule is satisfied it returns the default effect
  of the policy with no rule id, with the default reason when that is non-empty and a
  reason made from the effect otherwise.
\<close>

theorem first_match_wins:
  fixes config :: "'x PolicyConfig"
  shows
    "(i < length (rules config)
        \<and> (\<forall>j\<le>i. globs_in_scope ctx (rules config ! j))
        \<and> (\<forall>j<i. match_satisfied ctx (rules config ! j) = Inr False)
        \<and> match_satisfied ctx (rules config ! i) = Inr True \<longrightarrow>
      evaluatePolicy config ctx uuid
        = Inr \<lparr> effect = rule_effect (rules config ! i),
                reason = or_else (rule_reason (rules config ! i))
                           (getDefaultReason (rule_effect (rules config ! i))
                              (Some (rules config ! i))),
                rule = Some (rule_id (rules config ! i)),
                approvalToken = (if rule_effect (rules config ! i) = REVIEW then Some uuid
                                 else None) \<rparr>)
   \<and> (i < length (rules config)
        \<and> (\<forall>j\<le>i. globs_in_scope ctx (rules config ! j))
        \<and> (\<forall>j<i. match_satisfied ctx (rules config ! j) = Inr False)
        \<and> match_satisfied ctx (rules config ! i) = Inl e \<longrightarrow>
      evaluatePolicy config ctx uuid = Inl e)
   \<and> ((\<forall>r \<in> set (rules config). globs_in_scope ctx r \<and> match_satisfied ctx r = Inr False) \<longrightarrow>
      evaluatePolicy config ctx uuid
        = Inr \<lparr> effect = defaultEffect config,
                reason = or_else (defaultReason config)
                           (getDefaultReason (defaultEffect config) (None :: 'x PolicyRule option)),
                rule = None,
                approvalToken = (if defaultEffect config = REVIEW then Some uuid else None) \<rparr>)"
proof (intro conjI impI)
  assume h: "i < length (rules config)
        \<and> (\<forall>j\<le>i. globs_in_scope ctx (rules config ! j))
        \<and> (\<forall>j<i. match_satisfied ctx (rules config ! j) = Inr False)
        \<and> match_satisfied ctx (rules config ! i) = Inr True"
  then have b: "\<forall>j<i. matchesRule ctx (rules config ! j) = Inr False"
    and m: "matchesRule ctx (rules config ! i) = Inr True"
    by (simp_all add: matchesRule_satisfied)
  from h have "i < length (rules config)" by simp
  from evaluate_rules_at [OF this b, of uuid] m
  show "evaluatePolicy config ctx uuid
        = Inr \<lparr> effect = rule_effect (rules config ! i),
                reason = or_else (rule_reason (rules config ! i))
                           (getDefaultReason (rule_effect (rules config ! i))
                              (Some (rules config ! i))),
                rule = Some (rule_id (rules config ! i)),
                approvalToken = (if rule_effect (rules config ! i) = REVIEW then Some uuid
                                 else None) \<rparr>"
    by (simp add: evaluatePolicy_def Let_def)
next
  assume h: "i < length (rules config)
        \<and> (\<forall>j\<le>i. globs_in_scope ctx (rules config ! j))
        \<and> (\<forall>j<i. match_satisfied ctx (rules config ! j) = Inr False)
        \<and> match_satisfied ctx (rules config ! i) = Inl e"
  then have b: "\<forall>j<i. matchesRule ctx (rules config ! j) = Inr False"
    and m: "matchesRule ctx (rules config ! i) = Inl e"
    by (simp_all add: matchesRule_satisfied)
  from h have "i < length (rules config)" by simp
  from evaluate_rules_at [OF this b, of uuid] m
  show "evaluatePolicy config ctx uuid = Inl e"
    by (simp add: evaluatePolicy_def)
next
  assume "\<forall>r \<in> set (rules config). globs_in_scope ctx r \<and> match_satisfied ctx r = Inr False"
  then have "\<forall>r \<in> set (rules config). matchesRule ctx r = Inr False"
    by (simp add: matchesRule_satisfied)
  from evaluate_rules_none [OF this, of uuid]
  show "evaluatePolicy config ctx uuid
        = Inr \<lparr> effect = defaultEffect config,
                reason = or_else (defaultReason config)
                           (getDefaultReason (defaultEffect config) (None :: 'x PolicyRule option)),
                rule = None,
                approvalToken = (if defaultEffect config = REVIEW then Some uuid else None) \<rparr>"
    by (simp add: evaluatePolicy_def Let_def)
qed

lemma delete_db_glob [simp]:
  "glob_matches ''delete_*'' ''delete_db''"
  "glob_in_scope ''delete_*'' ''delete_db''"
  by code_simp+

theorem first_match_wins_witness:
  "globs_in_scope (delete_context HIGH) (rules createDefaultPolicy ! 0)
   \<and> globs_in_scope (delete_context HIGH) (rules createDefaultPolicy ! 1)
   \<and> match_satisfied (delete_context HIGH) (rules createDefaultPolicy ! 0) = Inr False
   \<and> match_satisfied (delete_context HIGH) (rules createDefaultPolicy ! 1) = Inr True
   \<and> evaluatePolicy createDefaultPolicy (delete_context HIGH) ''token-1''
       = Inr \<lparr> effect = REVIEW, reason = ''High-risk operations require human approval'',
               rule = Some ''review-high-risk'', approvalToken = Some ''token-1'' \<rparr>
   \<and> globs_in_scope (delete_context CRITICAL) (rules critical_delete_policy ! 0)
   \<and> match_satisfied (delete_context CRITICAL) (rules critical_delete_policy ! 0) = Inr True
   \<and> evaluatePolicy critical_delete_policy (delete_context CRITICAL) ''token-1''
       = Inr \<lparr> effect = DENY,
               reason = ''Operation denied by policy (rule: deny-critical-delete)'',
               rule = Some ''deny-critical-delete'', approvalToken = None \<rparr>
   \<and> globs_in_scope (delete_context HIGH) (rules throwing_second_policy ! 0)
   \<and> globs_in_scope (delete_context HIGH) (rules throwing_second_policy ! 1)
   \<and> match_satisfied (delete_context HIGH) (rules throwing_second_policy ! 0) = Inr False
   \<and> match_satisfied (delete_context HIGH) (rules throwing_second_policy ! 1)
       = Inl (Error ''matcher failed'')
   \<and> evaluatePolicy throwing_second_policy (delete_context HIGH) ''token-1''
       = Inl (Error ''matcher failed'')
   \<and> list_all (\<lambda>r. globs_in_scope (delete_context HIGH) r
                    \<and> match_satisfied (delete_context HIGH) r = Inr False)
        (rules critical_delete_policy)
   \<and> evaluatePolicy critical_delete_policy (delete_context HIGH) ''token-1''
       = Inr \<lparr> effect = ALLOW, reason = ''Operation allowed by policy'', rule = None,
               approvalToken = None \<rparr>"
proof -
  have l: "length (rules (createDefaultPolicy :: unit PolicyConfig)) = 4"
    "length (rules critical_delete_policy) = 1"
    "length (rules throwing_second_policy) = 2"
    by (simp_all add: createDefaultPolicy_def critical_delete_policy_def
        throwing_second_policy_def)
  have a: "globs_in_scope (delete_context HIGH) (rules createDefaultPolicy ! 0)"
    "globs_in_scope (delete_context HIGH) (rules createDefaultPolicy ! 1)"
    "match_satisfied (delete_context HIGH) (rules createDefaultPolicy ! 0) = Inr False"
    "match_satisfied (delete_context HIGH) (rules createDefaultPolicy ! 1) = Inr True"
    by (simp_all add: createDefaultPolicy_def globs_in_scope_def match_satisfied_def
        fields_satisfied_def delete_context_def)
  have b: "globs_in_scope (delete_context CRITICAL) (rules critical_delete_policy ! 0)"
    "match_satisfied (delete_context CRITICAL) (rules critical_delete_policy ! 0) = Inr True"
    "globs_in_scope (delete_context HIGH) (rules critical_delete_policy ! 0)"
    "match_satisfied (delete_context HIGH) (rules critical_delete_policy ! 0) = Inr False"
    by (simp_all add: critical_delete_policy_def globs_in_scope_def match_satisfied_def
        fields_satisfied_def delete_context_def)
  have c: "globs_in_scope (delete_context HIGH) (rules throwing_second_policy ! 0)"
    "globs_in_scope (delete_context HIGH) (rules throwing_second_policy ! 1)"
    "match_satisfied (delete_context HIGH) (rules throwing_second_policy ! 0) = Inr False"
    "match_satisfied (delete_context HIGH) (rules throwing_second_policy ! 1)
       = Inl (Error ''matcher failed'')"
    by (simp_all add: throwing_second_policy_def critical_delete_policy_def throwing_rule_def
        globs_in_scope_def match_satisfied_def fields_satisfied_def delete_context_def)
  have n: "\<forall>r \<in> set (rules critical_delete_policy).
      globs_in_scope (delete_context HIGH) r \<and> match_satisfied (delete_context HIGH) r = Inr False"
    using b(3,4) by (simp add: critical_delete_policy_def)
  have s1: "\<forall>j\<le>1. globs_in_scope (delete_context HIGH) (rules createDefaultPolicy ! j)"
    using a(1,2) by (auto simp: le_Suc_eq)
  have s2: "\<forall>j<1. match_satisfied (delete_context HIGH) (rules createDefaultPolicy ! j) = Inr False"
    using a(3) by simp
  have s3: "\<forall>j\<le>1. globs_in_scope (delete_context HIGH) (rules throwing_second_policy ! j)"
    using c(1,2) by (auto simp: le_Suc_eq)
  have s4: "\<forall>j<1. match_satisfied (delete_context HIGH) (rules throwing_second_policy ! j) = Inr False"
    using c(3) by simp
  have "evaluatePolicy createDefaultPolicy (delete_context HIGH) ''token-1''
       = Inr \<lparr> effect = REVIEW, reason = ''High-risk operations require human approval'',
               rule = Some ''review-high-risk'', approvalToken = Some ''token-1'' \<rparr>"
    using first_match_wins [where config = "createDefaultPolicy :: unit PolicyConfig" and i = 1
        and ctx = "delete_context HIGH" and uuid = "''token-1''"] s1 s2 a(4) l(1)
    by (simp add: createDefaultPolicy_def)
  moreover have "evaluatePolicy critical_delete_policy (delete_context CRITICAL) ''token-1''
       = Inr \<lparr> effect = DENY,
               reason = ''Operation denied by policy (rule: deny-critical-delete)'',
               rule = Some ''deny-critical-delete'', approvalToken = None \<rparr>"
    using first_match_wins [where config = critical_delete_policy and i = 0
        and ctx = "delete_context CRITICAL" and uuid = "''token-1''"] b(1,2) l(2)
    by (simp add: critical_delete_policy_def getDefaultReason_def)
  moreover have "evaluatePolicy throwing_second_policy (delete_context HIGH) ''token-1''
       = Inl (Error ''matcher failed'')"
    using first_match_wins [where config = throwing_second_policy and i = 1
        and ctx = "delete_context HIGH" and uuid = "''token-1''"
        and e = "Error ''matcher failed''"] s3 s4 c(4) l(3)
    by simp
  moreover have "evaluatePolicy critical_delete_policy (delete_context HIGH) ''token-1''
       = Inr \<lparr> effect = ALLOW, reason = ''Operation allowed by policy'', rule = None,
               approvalToken = None \<rparr>"
    using first_match_wins [where config = critical_delete_policy
        and ctx = "delete_context HIGH" and uuid = "''token-1''"] n
    by (simp add: critical_delete_policy_def getDefaultReason_def)
  ultimately show ?thesis
    using a b c n by (simp add: list_all_iff)
qed

text \<open>
  C1 as stated fails where a custom predicate throws: the only rule of the policy is not
  satisfied, and \<open>evaluatePolicy\<close> returns neither that rule's decision nor the default
  of the policy; it throws what the predicate threw.
\<close>

theorem matcher_exception_propagates:
  "rules throwing_policy = [throwing_rule]
   \<and> globs_in_scope safe_context throwing_rule
   \<and> match_satisfied safe_context throwing_rule = Inl (Error ''matcher failed'')
   \<and> evaluatePolicy throwing_policy safe_context ''token-1'' = Inl (Error ''matcher failed'')"
  by (simp add: throwing_policy_def throwing_rule_def globs_in_scope_def match_satisfied_def
      fields_satisfied_def evaluatePolicy_def matchesRule_def)

text \<open>
  Two calls out of the scope of \<open>first_match_wins\<close>. A rule whose tool pattern is the
  empty string is not satisfied by the tool \<^verbatim>\<open>jira\<close>; \<open>matchesRule\<close> skips a pattern that
  is falsy, and \<open>evaluatePolicy\<close> returns the rule's \<open>DENY\<close>, not the default \<open>ALLOW\<close>.
  The rule that denies critical deletions is satisfied by a critical call whose action is
  \<^verbatim>\<open>delete_\<close>, line feed, \<^verbatim>\<open>db\<close>; the pattern test of the code stops at the line feed, and
  \<open>evaluatePolicy\<close> returns the default \<open>ALLOW\<close>.
\<close>

lemma empty_glob_matches_all:
  "rules empty_glob_policy = [empty_glob_rule]
   \<and> \<not> globs_in_scope safe_context empty_glob_rule
   \<and> match_satisfied safe_context empty_glob_rule = Inr False
   \<and> defaultEffect empty_glob_policy = ALLOW
   \<and> evaluatePolicy empty_glob_policy safe_context ''token-1''
       = Inr \<lparr> effect = DENY, reason = ''Operation denied by policy (rule: deny-unnamed)'',
               rule = Some ''deny-unnamed'', approvalToken = None \<rparr>"
  by (simp add: empty_glob_policy_def empty_glob_rule_def match_satisfied_def
      fields_satisfied_def globs_in_scope_def glob_in_scope_def safe_context_def
      evaluatePolicy_def matchesRule_def getDefaultReason_def Let_def)

lemma line_feed_escapes_rule:
  "\<not> globs_in_scope delete_lf_context (rules critical_delete_policy ! 0)
   \<and> match_satisfied delete_lf_context (rules critical_delete_policy ! 0) = Inr True
   \<and> evaluatePolicy critical_delete_policy delete_lf_context ''token-1''
       = Inr \<lparr> effect = ALLOW, reason = ''Operation allowed by policy'', rule = None,
               approvalToken = None \<rparr>"
proof -
  have "glob_matches ''delete_*'' delete_lf_db" "\<not> matchesPattern delete_lf_db ''delete_*''"
    "\<not> glob_in_scope ''delete_*'' delete_lf_db"
    by code_simp+
  then show ?thesis
    by (simp add: critical_delete_policy_def match_satisfied_def fields_satisfied_def
        globs_in_scope_def delete_lf_context_def evaluatePolicy_def matchesRule_def
        getDefaultReason_def Let_def)
qed

section \<open>The approval store\<close>

lemma short_lived_store_created:
  "createApproval (new_ApprovalManager (Some (Some 60000))) test_context test_decision (Some 10) 1000
     = Inr (short_lived_store, short_lived)"
  by (simp add: createApproval_def new_ApprovalManager_def test_decision_def short_lived_def
      short_lived_store_def Let_def)

lemma getApproval_SomeD:
  "getApproval m tok = Some a \<Longrightarrow>
     \<exists>p. map_of (pendingApprovals m) tok = Some p \<and> p < length (objects m) \<and> objects m ! p = a"
  by (auto simp: getApproval_def pendingApprovals_get_def object_at_def split: option.splits
      if_splits)

lemma getApproval_set_status:
  "map_of (pendingApprovals m) tok = Some p \<Longrightarrow> p < length (objects m) \<Longrightarrow>
     getApproval (set_status m p v) tok = Some ((objects m ! p)\<lparr> status := v \<rparr>)"
  by (simp add: getApproval_def pendingApprovals_get_def object_at_def set_status_def)

lemma getApproval_short_lived:
  "getApproval short_lived_store ''test-token-001'' = Some short_lived"
  by (simp add: getApproval_def pendingApprovals_get_def object_at_def short_lived_store_def)

text \<open>
  C10. The identity of the approver or denier has no influence: with any two
  identities \<open>grantApproval\<close> gives the same result and the same store, and so does
  \<open>denyApproval\<close>.
\<close>

theorem approver_identity_irrelevant:
  "grantApproval m tok a now = grantApproval m tok b now
   \<and> denyApproval m tok a = denyApproval m tok b"
  by (simp add: grantApproval_def pendingApprovals_get_def denyApproval_def)

text \<open>
  C6. When the approval stored under a token is pending and its \<open>expiresAt\<close> lies
  strictly before the time of the call, \<open>grantApproval\<close> sets the status of the stored
  record to \<open>expired\<close>, changes nothing else, and fails with the message that the
  token has expired.
\<close>

theorem grant_expired:
  assumes "getApproval m tok = Some a" and "status a = pending"
    and "expiresAt a = Some (TimeValue e)" and "e < now"
  shows "snd (grantApproval m tok approver now)
           = \<lparr> success = False, approval = None, error = Some ''Approval token has expired'' \<rparr>
       \<and> getApproval (fst (grantApproval m tok approver now)) tok = Some (a\<lparr> status := expired \<rparr>)
       \<and> (\<exists>p. map_of (pendingApprovals m) tok = Some p
              \<and> fst (grantApproval m tok approver now)
                  = m\<lparr> objects := (objects m)[p := a\<lparr> status := expired \<rparr>] \<rparr>)"
proof -
  from assms(1) obtain p where p: "map_of (pendingApprovals m) tok = Some p"
    "p < length (objects m)" "objects m ! p = a"
    by (auto dest: getApproval_SomeD)
  have g: "grantApproval m tok approver now
        = (set_status m p expired,
           \<lparr> success = False, approval = None, error = Some ''Approval token has expired'' \<rparr>)"
    using p assms(2-4) by (simp add: grantApproval_def pendingApprovals_get_def object_at_def)
  show ?thesis
    using p g getApproval_set_status [OF p(1) p(2), of expired]
    by (simp add: set_status_def)
qed

theorem grant_expired_witness:
  "getApproval short_lived_store ''test-token-001'' = Some short_lived
   \<and> status short_lived = pending
   \<and> expiresAt short_lived = Some (TimeValue 1010)
   \<and> snd (grantApproval short_lived_store ''test-token-001'' test_caller 1050)
       = \<lparr> success = False, approval = None, error = Some ''Approval token has expired'' \<rparr>
   \<and> getApproval (fst (grantApproval short_lived_store ''test-token-001'' test_caller 1050))
        ''test-token-001'' = Some (short_lived\<lparr> status := expired \<rparr>)"
proof -
  have h: "status short_lived = pending" "expiresAt short_lived = Some (TimeValue 1010)"
    "(1010 :: int) < 1050"
    by (simp_all add: short_lived_def)
  show ?thesis
    using grant_expired [OF getApproval_short_lived h, of test_caller] getApproval_short_lived h
    by simp
qed

text \<open>
  C7. When the approval stored under a token is pending, \<open>denyApproval\<close> succeeds and
  sets the status of the stored record to \<open>denied\<close>, wherever its \<open>expiresAt\<close> lies:
  \<open>denyApproval\<close> reads neither the clock nor \<open>expiresAt\<close>. The same record, once its
  \<open>expiresAt\<close> has passed, cannot be granted.
\<close>

theorem deny_pending_ignores_expiry:
  assumes "getApproval m tok = Some a" and "status a = pending"
  shows "snd (denyApproval m tok denier)
           = \<lparr> success = True, approval = Some (a\<lparr> status := denied \<rparr>), error = None \<rparr>
       \<and> getApproval (fst (denyApproval m tok denier)) tok = Some (a\<lparr> status := denied \<rparr>)
       \<and> (\<exists>p. map_of (pendingApprovals m) tok = Some p
              \<and> fst (denyApproval m tok denier)
                  = m\<lparr> objects := (objects m)[p := a\<lparr> status := denied \<rparr>] \<rparr>)"
proof -
  from assms(1) obtain p where p: "map_of (pendingApprovals m) tok = Some p"
    "p < length (objects m)" "objects m ! p = a"
    by (auto dest: getApproval_SomeD)
  have g: "denyApproval m tok denier
        = (set_status m p denied,
           \<lparr> success = True, approval = Some (a\<lparr> status := denied \<rparr>), error = None \<rparr>)"
    using p assms(2) by (simp add: denyApproval_def pendingApprovals_get_def object_at_def)
  show ?thesis
    using p g getApproval_set_status [OF p(1) p(2), of denied]
    by (simp add: set_status_def)
qed

theorem deny_pending_ignores_expiry_witness:
  "getApproval short_lived_store ''test-token-001'' = Some short_lived
   \<and> status short_lived = pending
   \<and> expiresAt short_lived = Some (TimeValue 1010)
   \<and> success (snd (grantApproval short_lived_store ''test-token-001'' test_caller 1050)) = False
   \<and> snd (denyApproval short_lived_store ''test-token-001'' test_caller)
       = \<lparr> success = True, approval = Some (short_lived\<lparr> status := denied \<rparr>), error = None \<rparr>
   \<and> getApproval (fst (denyApproval short_lived_store ''test-token-001'' test_caller))
        ''test-token-001'' = Some (short_lived\<lparr> status := denied \<rparr>)"
proof -
  have h: "status short_lived = pending" "expiresAt short_lived = Some (TimeValue 1010)"
    "(1010 :: int) < 1050"
    by (simp_all add: short_lived_def)
  have g: "success (snd (grantApproval short_lived_store ''test-token-001'' test_caller 1050)) = False"
    by (simp add: grantApproval_def pendingApprovals_get_def object_at_def
        short_lived_store_def short_lived_def)
  show ?thesis
    using deny_pending_ignores_expiry [OF getApproval_short_lived h(1), of test_caller]
      getApproval_short_lived h g
    by simp
qed

subsection \<open>Reachable managers\<close>

lemma allocated_new: "allocated (new_ApprovalManager config)"
  by (simp add: allocated_def new_ApprovalManager_def)

lemma allocated_lookup:
  "allocated m \<Longrightarrow> map_of (pendingApprovals m) tok = Some p \<Longrightarrow> object_at m p \<noteq> None"
  by (auto simp: allocated_def object_at_def list_all_iff dest: map_of_SomeD)

lemma set_update_subset: "set (AList.update k v al) \<subseteq> insert (k, v) (set al)"
  by (induction al) auto

lemma allocated_step: "allocated m \<Longrightarrow> allocated (store_step m c)"
proof (cases c)
  case (Pair now call)
  assume a: "allocated m"
  show ?thesis
  proof (cases call)
    case (call_createApproval ctx d ttl)
    with Pair a show ?thesis
      using set_update_subset [of _ "length (objects m)" "pendingApprovals m"]
      by (auto simp: allocated_def createApproval_def Let_def list_all_iff less_Suc_eq
          split: option.splits)
  next
    case (call_grantApproval tok approver)
    with Pair a show ?thesis
      by (auto simp: allocated_def grantApproval_def pendingApprovals_get_def set_status_def
          split: option.splits)
  next
    case (call_denyApproval tok denier)
    with Pair a show ?thesis
      by (auto simp: allocated_def denyApproval_def pendingApprovals_get_def set_status_def
          split: option.splits)
  next
    case (call_expireApproval tok)
    with Pair a show ?thesis
      by (auto simp: allocated_def expireApproval_def pendingApprovals_get_def set_status_def
          split: option.splits)
  next
    case (call_cleanup olderThan)
    with Pair a show ?thesis
      by (auto simp: allocated_def cleanup_def Let_def list_all_iff)
  qed
qed

lemma unique_tokens_new: "unique_tokens (new_ApprovalManager config)"
  by (simp add: unique_tokens_def new_ApprovalManager_def)

lemma unique_tokens_step: "unique_tokens m \<Longrightarrow> unique_tokens (store_step m c)"
proof (cases c)
  case (Pair now call)
  assume a: "unique_tokens m"
  show ?thesis
  proof (cases call)
    case (call_createApproval ctx d ttl)
    with Pair a show ?thesis
      by (auto simp: unique_tokens_def createApproval_def Let_def distinct_update
          split: option.splits)
  next
    case (call_grantApproval tok approver)
    with Pair a show ?thesis
      by (auto simp: unique_tokens_def grantApproval_def pendingApprovals_get_def
          set_status_def split: option.splits)
  next
    case (call_denyApproval tok denier)
    with Pair a show ?thesis
      by (auto simp: unique_tokens_def denyApproval_def pendingApprovals_get_def set_status_def
          split: option.splits)
  next
    case (call_expireApproval tok)
    with Pair a show ?thesis
      by (auto simp: unique_tokens_def expireApproval_def pendingApprovals_get_def
          set_status_def split: option.splits)
  next
    case (call_cleanup olderThan)
    with Pair a show ?thesis
      by (auto simp: unique_tokens_def cleanup_def Let_def distinct_map_filter)
  qed
qed

lemma reachable_well_formed:
  "allocated (foldl store_step (new_ApprovalManager config) cs)
   \<and> unique_tokens (foldl store_step (new_ApprovalManager config) cs)"
proof -
  have "allocated m \<and> unique_tokens m \<Longrightarrow>
      allocated (foldl store_step m cs) \<and> unique_tokens (foldl store_step m cs)" for m :: "'a ApprovalManager"
    by (induction cs arbitrary: m) (simp_all add: allocated_step unique_tokens_step)
  then show ?thesis
    by (simp add: allocated_new unique_tokens_new)
qed

lemma map_of_filter_distinct:
  "distinct (map fst al) \<Longrightarrow>
     map_of (filter P al) k
       = (case map_of al k of None \<Rightarrow> None | Some v \<Rightarrow> if P (k, v) then Some v else None)"
proof (induction al)
  case Nil
  then show ?case by simp
next
  case (Cons e al)
  obtain k' v' where e: "e = (k', v')" by (cases e)
  from Cons.prems e have "k' \<notin> fst ` set al" by simp
  then have "map_of al k' = None" by (simp add: map_of_eq_None_iff)
  with Cons e show ?case by (auto split: option.splits)
qed

lemma settled_token_step:
  assumes "unique_tokens m" and "getApproval m tok = Some a" and "status a \<noteq> pending"
    and "case call of call_createApproval ctx d ttl \<Rightarrow> approvalToken d \<noteq> Some tok | _ \<Rightarrow> True"
  shows "getApproval (store_step m (now, call)) tok = Some a
       \<or> (getApproval (store_step m (now, call)) tok = None \<and> (\<exists>cutoff. call = call_cleanup cutoff))"
proof -
  from assms(2) obtain p where p: "map_of (pendingApprovals m) tok = Some p"
    "p < length (objects m)" "objects m ! p = a"
    by (auto dest: getApproval_SomeD)
  show ?thesis
  proof (cases call)
    case (call_createApproval ctx d ttl)
    with assms(4) p show ?thesis
      by (auto simp: createApproval_def Let_def getApproval_def pendingApprovals_get_def
          object_at_def update_conv'
          nth_append split: option.splits)
  next
    case (call_grantApproval tok' approver)
    with p assms(3) show ?thesis
      by (auto simp: grantApproval_def pendingApprovals_get_def set_status_def object_at_def
          getApproval_def
          nth_list_update split: option.splits)
  next
    case (call_denyApproval tok' denier)
    with p assms(3) show ?thesis
      by (auto simp: denyApproval_def pendingApprovals_get_def set_status_def object_at_def
          getApproval_def
          nth_list_update split: option.splits)
  next
    case (call_expireApproval tok')
    with p assms(3) show ?thesis
      by (auto simp: expireApproval_def pendingApprovals_get_def set_status_def object_at_def
          getApproval_def
          nth_list_update split: option.splits)
  next
    case (call_cleanup olderThan)
    with p assms(1) show ?thesis
      by (auto simp: cleanup_def Let_def getApproval_def pendingApprovals_get_def object_at_def
          unique_tokens_def
          map_of_filter_distinct)
  qed
qed

subsection \<open>Statuses other than pending are final\<close>

lemma settled_object_step:
  assumes "p < length (objects m)" and "status (objects m ! p) \<noteq> pending"
  shows "p < length (objects (store_step m c)) \<and> objects (store_step m c) ! p = objects m ! p"
proof (cases c)
  case (Pair now call)
  show ?thesis
  proof (cases call)
    case (call_createApproval ctx d ttl)
    with Pair assms show ?thesis
      by (auto simp: createApproval_def Let_def nth_append split: option.splits)
  next
    case (call_grantApproval tok approver)
    with Pair assms show ?thesis
      by (auto simp: grantApproval_def pendingApprovals_get_def set_status_def object_at_def
          nth_list_update
          split: option.splits if_splits)
  next
    case (call_denyApproval tok denier)
    with Pair assms show ?thesis
      by (auto simp: denyApproval_def pendingApprovals_get_def set_status_def object_at_def
          nth_list_update
          split: option.splits if_splits)
  next
    case (call_expireApproval tok)
    with Pair assms show ?thesis
      by (auto simp: expireApproval_def pendingApprovals_get_def set_status_def object_at_def
          nth_list_update
          split: option.splits if_splits)
  next
    case (call_cleanup olderThan)
    with Pair assms show ?thesis
      by (auto simp: cleanup_def Let_def)
  qed
qed

lemma settled_object_run:
  "p < length (objects m) \<Longrightarrow> status (objects m ! p) \<noteq> pending \<Longrightarrow>
     p < length (objects (foldl store_step m cs)) \<and> objects (foldl store_step m cs) ! p = objects m ! p"
proof (induction cs arbitrary: m)
  case Nil
  then show ?case by simp
next
  case (Cons c cs)
  from settled_object_step [OF Cons.prems, of c]
  have s: "p < length (objects (store_step m c))" "objects (store_step m c) ! p = objects m ! p"
    by simp_all
  with Cons.prems(2) have "status (objects (store_step m c) ! p) \<noteq> pending" by simp
  from Cons.IH [OF s(1) this] s show ?case by simp
qed

lemma already_processed:
  assumes "getApproval m tok = Some a" and "status a \<noteq> pending"
  shows "grantApproval m tok approver now
           = (m, \<lparr> success = False, approval = None,
                    error = Some (''Approval is already '' @ status_text (status a)) \<rparr>)"
    and "denyApproval m tok denier
           = (m, \<lparr> success = False, approval = None,
                    error = Some (''Approval is already '' @ status_text (status a)) \<rparr>)"
  using assms
  by (auto simp: grantApproval_def pendingApprovals_get_def denyApproval_def getApproval_def
      split: option.splits)

lemma grant_pending_unexpired:
  assumes "getApproval m tok = Some a" and "status a = pending"
    and "\<not> (case expiresAt a of None \<Rightarrow> False | Some e \<Rightarrow> date_less e (TimeValue now))"
  shows "snd (grantApproval m tok approver now)
           = \<lparr> success = True, approval = Some (a\<lparr> status := approved \<rparr>), error = None \<rparr>"
    and "getApproval (fst (grantApproval m tok approver now)) tok = Some (a\<lparr> status := approved \<rparr>)"
proof -
  from assms(1) obtain p where p: "map_of (pendingApprovals m) tok = Some p"
    "p < length (objects m)" "objects m ! p = a"
    by (auto dest: getApproval_SomeD)
  have g: "grantApproval m tok approver now
        = (set_status m p approved,
           \<lparr> success = True, approval = Some (a\<lparr> status := approved \<rparr>), error = None \<rparr>)"
    using p assms(2,3) by (simp add: grantApproval_def pendingApprovals_get_def object_at_def)
  show "snd (grantApproval m tok approver now)
           = \<lparr> success = True, approval = Some (a\<lparr> status := approved \<rparr>), error = None \<rparr>"
    using g by simp
  show "getApproval (fst (grantApproval m tok approver now)) tok = Some (a\<lparr> status := approved \<rparr>)"
    using g p getApproval_set_status [OF p(1) p(2), of approved] by simp
qed

lemma pending_store_created:
  "createApproval (new_ApprovalManager (Some (Some 60000))) test_context test_decision None 1000
     = Inr (pending_store, pending_approval)"
  by (simp add: createApproval_def new_ApprovalManager_def test_decision_def pending_approval_def
      pending_store_def Let_def)

lemma getApproval_pending_store:
  "getApproval pending_store ''test-token-001'' = Some pending_approval"
  by (simp add: getApproval_def pendingApprovals_get_def object_at_def pending_store_def)

lemma grant_pending_store:
  "grantApproval pending_store ''test-token-001'' test_caller 2000
     = (approved_store,
        \<lparr> success = True, approval = Some (pending_approval\<lparr> status := approved \<rparr>), error = None \<rparr>)"
  by (simp add: grantApproval_def pendingApprovals_get_def object_at_def pending_store_def
      approved_store_def
      pending_approval_def set_status_def)

lemma getApproval_approved_store:
  "getApproval approved_store ''test-token-001'' = Some (pending_approval\<lparr> status := approved \<rparr>)"
  by (simp add: getApproval_def pendingApprovals_get_def object_at_def approved_store_def
      pending_store_def)

text \<open>
  C8. For an approval stored under a token with a status other than \<open>pending\<close>, both
  \<open>grantApproval\<close> and \<open>denyApproval\<close> fail with the message "Approval is already"
  followed by that status, and leave the manager as it is. For a pending approval whose
  \<open>expiresAt\<close> does not lie before the time of the call, \<open>grantApproval\<close> succeeds and
  sets the status to \<open>approved\<close>, and a second \<open>grantApproval\<close> of the token then fails
  with "Approval is already approved". An approval object whose status is not
  \<open>pending\<close> is never changed again by any sequence of calls of \<open>createApproval\<close>,
  \<open>grantApproval\<close>, \<open>denyApproval\<close>, \<open>cleanup\<close> and expiry callbacks.
\<close>

theorem status_terminal:
  "(getApproval m tok = Some a \<and> status a \<noteq> pending \<longrightarrow>
      grantApproval m tok approver now
        = (m, \<lparr> success = False, approval = None,
                 error = Some (''Approval is already '' @ status_text (status a)) \<rparr>)
      \<and> denyApproval m tok denier
        = (m, \<lparr> success = False, approval = None,
                 error = Some (''Approval is already '' @ status_text (status a)) \<rparr>))
   \<and> (getApproval m tok = Some a \<and> status a = pending
        \<and> \<not> (case expiresAt a of None \<Rightarrow> False | Some e \<Rightarrow> date_less e (TimeValue now)) \<longrightarrow>
      snd (grantApproval m tok approver now)
        = \<lparr> success = True, approval = Some (a\<lparr> status := approved \<rparr>), error = None \<rparr>
      \<and> getApproval (fst (grantApproval m tok approver now)) tok = Some (a\<lparr> status := approved \<rparr>)
      \<and> grantApproval (fst (grantApproval m tok approver now)) tok approver' now'
        = (fst (grantApproval m tok approver now),
           \<lparr> success = False, approval = None, error = Some ''Approval is already approved'' \<rparr>))
   \<and> (p < length (objects m) \<and> status (objects m ! p) \<noteq> pending \<longrightarrow>
      p < length (objects (foldl store_step m cs))
      \<and> objects (foldl store_step m cs) ! p = objects m ! p)"
proof (intro conjI impI)
  assume h: "getApproval m tok = Some a \<and> status a \<noteq> pending"
  then show "grantApproval m tok approver now
        = (m, \<lparr> success = False, approval = None,
                 error = Some (''Approval is already '' @ status_text (status a)) \<rparr>)"
    using already_processed(1) by blast
  from h show "denyApproval m tok denier
        = (m, \<lparr> success = False, approval = None,
                 error = Some (''Approval is already '' @ status_text (status a)) \<rparr>)"
    using already_processed(2) by blast
next
  assume h: "getApproval m tok = Some a \<and> status a = pending
        \<and> \<not> (case expiresAt a of None \<Rightarrow> False | Some e \<Rightarrow> date_less e (TimeValue now))"
  then show s: "snd (grantApproval m tok approver now)
        = \<lparr> success = True, approval = Some (a\<lparr> status := approved \<rparr>), error = None \<rparr>"
    using grant_pending_unexpired(1) by blast
  from h show g: "getApproval (fst (grantApproval m tok approver now)) tok = Some (a\<lparr> status := approved \<rparr>)"
    using grant_pending_unexpired(2) by blast
  show "grantApproval (fst (grantApproval m tok approver now)) tok approver' now'
        = (fst (grantApproval m tok approver now),
           \<lparr> success = False, approval = None, error = Some ''Approval is already approved'' \<rparr>)"
    using already_processed(1) [OF g, of approver' now'] by simp
next
  assume "p < length (objects m) \<and> status (objects m ! p) \<noteq> pending"
  then show "p < length (objects (foldl store_step m cs))"
    and "objects (foldl store_step m cs) ! p = objects m ! p"
    using settled_object_run [of p m cs] by simp_all
qed


theorem status_terminal_witness:
  "getApproval approved_store ''test-token-001'' = Some (pending_approval\<lparr> status := approved \<rparr>)
   \<and> status (pending_approval\<lparr> status := approved \<rparr>) = approved
   \<and> grantApproval approved_store ''test-token-001'' test_caller 3000
       = (approved_store,
          \<lparr> success = False, approval = None, error = Some ''Approval is already approved'' \<rparr>)
   \<and> denyApproval approved_store ''test-token-001'' test_caller
       = (approved_store,
          \<lparr> success = False, approval = None, error = Some ''Approval is already approved'' \<rparr>)
   \<and> getApproval pending_store ''test-token-001'' = Some pending_approval
   \<and> status pending_approval = pending
   \<and> expiresAt pending_approval = Some (TimeValue 61000)
   \<and> grantApproval pending_store ''test-token-001'' test_caller 2000
       = (approved_store,
          \<lparr> success = True, approval = Some (pending_approval\<lparr> status := approved \<rparr>), error = None \<rparr>)
   \<and> objects approved_store ! 0 = pending_approval\<lparr> status := approved \<rparr>
   \<and> objects (foldl store_step approved_store
         [(3000, call_denyApproval ''test-token-001'' test_caller),
          (4000, call_expireApproval ''test-token-001''),
          (5000, call_createApproval test_context test_decision (Some 10)),
          (6000, call_grantApproval ''test-token-001'' test_caller),
          (100000000, call_cleanup None)]) ! 0
       = pending_approval\<lparr> status := approved \<rparr>"
proof -
  have a: "getApproval approved_store ''test-token-001'' = Some (pending_approval\<lparr> status := approved \<rparr>)
        \<and> status (pending_approval\<lparr> status := approved \<rparr>) \<noteq> pending"
    using getApproval_approved_store by simp
  have b: "getApproval pending_store ''test-token-001'' = Some pending_approval
        \<and> status pending_approval = pending
        \<and> \<not> (case expiresAt pending_approval of None \<Rightarrow> False
               | Some e \<Rightarrow> date_less e (TimeValue 2000))"
    using getApproval_pending_store by (simp add: pending_approval_def)
  have c: "0 < length (objects approved_store) \<and> status (objects approved_store ! 0) \<noteq> pending"
    by (simp add: approved_store_def)
  have e: "expiresAt pending_approval = Some (TimeValue 61000)" "status pending_approval = pending"
    "objects approved_store ! 0 = pending_approval\<lparr> status := approved \<rparr>"
    by (simp_all add: pending_approval_def approved_store_def)
  show ?thesis
    using status_terminal [where m = approved_store and tok = "''test-token-001''"
        and a = "pending_approval\<lparr> status := approved \<rparr>" and approver = test_caller
        and now = 3000 and denier = test_caller]
      status_terminal [where m = pending_store and tok = "''test-token-001''"
        and a = pending_approval and approver = test_caller and now = 2000]
      status_terminal [where m = approved_store and p = 0 and cs =
        "[(3000, call_denyApproval ''test-token-001'' test_caller),
          (4000, call_expireApproval ''test-token-001''),
          (5000, call_createApproval test_context test_decision (Some 10)),
          (6000, call_grantApproval ''test-token-001'' test_caller),
          (100000000, call_cleanup None)]"]
      a b c e grant_pending_store
    by simp
qed



subsection \<open>A ttl of zero\<close>

text \<open>
  C5. The claim: an approval created with an explicit ttl of 0 has expired as soon as it
  is granted. The code: \<^verbatim>\<open>ttl ? ... : ...\<close> takes a ttl of 0 for no ttl, so the
  approval gets the default ttl of the manager. Created at time 1000 in a manager with
  the default of one hour, it expires at 3601000, its timer is set to one hour, and
  \<open>grantApproval\<close> a millisecond after the creation succeeds.
\<close>

theorem zero_ttl_uses_default:
  "createApproval (new_ApprovalManager None) test_context test_decision (Some 0) 1000
     = Inr (zero_ttl_store, zero_ttl_approval)
   \<and> expiresAt zero_ttl_approval = Some (TimeValue (1000 + 3600000))
   \<and> grantApproval zero_ttl_store ''test-token-001'' test_caller 1001
     = (zero_ttl_store\<lparr> objects := [zero_ttl_approval\<lparr> status := approved \<rparr>] \<rparr>,
        \<lparr> success = True, approval = Some (zero_ttl_approval\<lparr> status := approved \<rparr>),
          error = None \<rparr>)"
  by (simp add: createApproval_def new_ApprovalManager_def test_decision_def
      zero_ttl_approval_def zero_ttl_store_def Let_def grantApproval_def
          pendingApprovals_get_def object_at_def
      set_status_def)

section \<open>The gateway\<close>

lemma grant_unknown_token:
  assumes "getApproval (approvalManager g) tok = None"
  shows "grantApprovalAndExecute g tok approver executor now
       = \<lparr> gateway = g, settled = Inl (Error ''Approval token not found''), executor_calls = 0 \<rparr>"
  using assms
  by (auto simp: grantApprovalAndExecute_def grantApproval_def pendingApprovals_get_def
      getApproval_def
      split: option.splits)

text \<open>
  C3. The claim: \<open>grantApprovalAndExecute\<close> with a token the manager does not know
  throws an error whose message contains "failed to grant approval", and never calls
  the executor. The code throws an error with the manager's own message, "Approval
  token not found", which does not contain that text, written with a small f or with a
  capital one; "Failed to grant approval" is the message only when the manager gives
  none. The executor is not called.
\<close>

theorem grant_unknown_token_message:
  "settled (grantApprovalAndExecute test_gateway ''unknown-token'' test_caller (Resolves ()) 1000)
     = Inl (Error ''Approval token not found'')
   \<and> \<not> js_includes ''Approval token not found'' ''failed to grant approval''
   \<and> \<not> js_includes ''Approval token not found'' ''Failed to grant approval''
   \<and> executor_calls
        (grantApprovalAndExecute test_gateway ''unknown-token'' test_caller (Resolves ()) 1000) = 0"
proof -
  have "getApproval (approvalManager test_gateway) ''unknown-token'' = None"
    by (simp add: test_gateway_def new_SecureMCPGateway_def new_ApprovalManager_def
        getApproval_def pendingApprovals_get_def)
  from grant_unknown_token [OF this] show ?thesis by simp
qed

text \<open>
  C4 (amended). For a call that the policy allows and an executor that throws or
  rejects: when the audit logger resolves the \<^verbatim>\<open>logToolCall\<close> and the
  \<^verbatim>\<open>logExecutionFailure\<close> call, \<open>executeToolCall\<close> returns a result that is allowed and
  whose execution result is a failure with the message of the executor's error; it
  makes these two calls on the logger and no other, and calls the executor once.
\<close>

theorem executor_rejects:
  assumes "ctx = \<lparr> callId = cid, tool = tname, action = aname, severity = sev, caller = clr,
                    args = ags, timestamp = now, metadata = meta \<rparr>"
    and "evaluatePolicy (policyEngine g) ctx uuid = Inr d"
    and "effect d = ALLOW"
    and "auditLogger g (audit_calls g) (logToolCall ctx d) = None"
    and "auditLogger g (audit_calls g @ [logToolCall ctx d])
           (logExecutionFailure ctx (error_message e)) = None"
  shows "executeToolCall g tname aname sev clr (Rejects e) ags meta cid uuid now later
       = \<lparr> gateway = g\<lparr> audit_calls := audit_calls g
                          @ [logToolCall ctx d, logExecutionFailure ctx (error_message e)] \<rparr>,
           settled = Inr \<lparr> allowed = True, call_decision = d, call_approvalToken = None,
                          call_context = ctx,
                          result = Some \<lparr> exec_success = False, exec_output = None,
                                          exec_error = Some (error_message e) \<rparr> \<rparr>,
           executor_calls = 1 \<rparr>"
  using assms
  by (simp add: executeToolCall_def evaluateToolCall_def await_log_def try_block_def
      catch_block_def Let_def)

theorem executor_rejects_witness:
  "evaluatePolicy (policyEngine test_gateway) safe_context ''token-1'' = Inr safe_decision
   \<and> effect safe_decision = ALLOW
   \<and> auditLogger test_gateway (audit_calls test_gateway)
        (logToolCall safe_context safe_decision) = None
   \<and> auditLogger test_gateway (audit_calls test_gateway @ [logToolCall safe_context safe_decision])
        (logExecutionFailure safe_context ''boom'') = None
   \<and> settled (executeToolCall test_gateway ''jira'' ''search_issues'' SAFE test_caller
        (Rejects (Error ''boom'')) None None ''call-1'' ''token-1'' 1000 1001)
      = Inr \<lparr> allowed = True, call_decision = safe_decision, call_approvalToken = None,
              call_context = safe_context,
              result = Some \<lparr> exec_success = False, exec_output = None,
                              exec_error = Some ''boom'' \<rparr> \<rparr>
   \<and> executor_calls (executeToolCall test_gateway ''jira'' ''search_issues'' SAFE test_caller
        (Rejects (Error ''boom'')) None None ''call-1'' ''token-1'' 1000 1001) = 1
   \<and> audit_calls (gateway (executeToolCall test_gateway ''jira'' ''search_issues'' SAFE
        test_caller (Rejects (Error ''boom'')) None None ''call-1'' ''token-1'' 1000 1001))
      = [logToolCall safe_context safe_decision, logExecutionFailure safe_context ''boom'']"
proof -
  have p: "policyEngine test_gateway = createDefaultPolicy" "audit_calls test_gateway = []"
    "auditLogger test_gateway = accepting_logger"
    by (simp_all add: test_gateway_def new_SecureMCPGateway_def)
  have c: "safe_context = \<lparr> callId = ''call-1'', tool = ''jira'', action = ''search_issues'',
      severity = SAFE, caller = test_caller, args = None, timestamp = 1000, metadata = None \<rparr>"
    by (simp add: safe_context_def)
  have d: "evaluatePolicy (policyEngine test_gateway) safe_context ''token-1'' = Inr safe_decision"
    by (simp add: p safe_decision_eval)
  have e: "effect safe_decision = ALLOW" by (simp add: safe_decision_def)
  have l: "auditLogger test_gateway (audit_calls test_gateway)
      (logToolCall safe_context safe_decision) = None"
    "auditLogger test_gateway (audit_calls test_gateway @ [logToolCall safe_context safe_decision])
      (logExecutionFailure safe_context (error_message (Error ''boom''))) = None"
    by (simp_all add: p accepting_logger_def)
  show ?thesis
    using executor_rejects [OF c d e l] d e p l by simp
qed

text \<open>
  C4 as stated fails: when the logger rejects \<^verbatim>\<open>logExecutionFailure\<close>, the promise of
  \<open>executeToolCall\<close> rejects with what the logger threw.
\<close>

theorem executor_rejects_log_fails:
  "evaluatePolicy (policyEngine failing_log_gateway) safe_context ''token-1'' = Inr safe_decision
   \<and> effect safe_decision = ALLOW
   \<and> settled (executeToolCall failing_log_gateway ''jira'' ''search_issues'' SAFE test_caller
        (Rejects (Error ''boom'')) None None ''call-1'' ''token-1'' 1000 1001)
      = Inl (Error ''audit log unavailable'')
   \<and> executor_calls (executeToolCall failing_log_gateway ''jira'' ''search_issues'' SAFE
        test_caller (Rejects (Error ''boom'')) None None ''call-1'' ''token-1'' 1000 1001) = 1"
proof -
  have p: "policyEngine failing_log_gateway = createDefaultPolicy"
    by (simp add: failing_log_gateway_def new_SecureMCPGateway_def)
  have c: "\<lparr> callId = ''call-1'', tool = ''jira'', action = ''search_issues'',
      severity = SAFE, caller = test_caller, args = None, timestamp = 1000, metadata = None \<rparr>
      = safe_context"
    by (simp add: safe_context_def)
  show ?thesis
    by (simp add: executeToolCall_def evaluateToolCall_def await_log_def try_block_def
        catch_block_def Let_def p c safe_decision_eval safe_decision_def
        failing_log_gateway_def new_SecureMCPGateway_def failing_logger_def)
qed
end
